theory Spec2Isabelle
  imports Complex_Main "HOL-Library.Multiset"
begin

section \<open>Python values, dictionaries and strings\<close>

text \<open>
  The functions keep the names they have in the source; a leading underscore is dropped
  (\<^verbatim>\<open>_extract_data\<close> is \<open>extract_data\<close>) and a method is prefixed with its class
  where the name alone would clash (\<^verbatim>\<open>Scraper.scrape\<close> is \<open>Scraper_scrape\<close>).

  The values a Record can hold. Python dictionaries keep insertion order, so a
  dictionary is an association list; \<open>dict_set\<close> is \<^verbatim>\<open>d[k] = v\<close> (an existing key
  keeps its place, a new key goes last) and \<open>dict_del\<close> is \<^verbatim>\<open>del d[k]\<close>, which
  raises KeyError on a missing key.
\<close>

datatype pyval =
    PyNone
  | PyInt int
  | PyStr string
  | PyList "pyval list"
  | PyDict "(string \<times> pyval) list"

type_synonym py_dict = "(string \<times> pyval) list"

datatype exn =
    Exn string
  | ValueError string
  | HTTPError nat
  | IndexError
  | KeyError string
  | RetryError exn

datatype log_record =
    LogWarning string
  | LogError string exn

fun dict_set :: "('k \<times> 'v) list \<Rightarrow> 'k \<Rightarrow> 'v \<Rightarrow> ('k \<times> 'v) list" where
  "dict_set [] k v = [(k, v)]"
| "dict_set ((k', v') # d) k v =
     (if k' = k then (k, v) # d else (k', v') # dict_set d k v)"

fun dict_del :: "(string \<times> 'v) list \<Rightarrow> string \<Rightarrow> exn + (string \<times> 'v) list" where
  "dict_del [] k = Inl (KeyError k)"
| "dict_del ((k', v') # d) k =
     (if k' = k then Inr d
      else (case dict_del d k of Inl e \<Rightarrow> Inl e | Inr d' \<Rightarrow> Inr ((k', v') # d')))"

definition dict_keys :: "('k \<times> 'v) list \<Rightarrow> 'k list" where
  "dict_keys d = map fst d"

text \<open>
  \<^verbatim>\<open>str.strip()\<close> removes the characters for which \<^verbatim>\<open>str.isspace\<close> holds from both
  ends. A string is a list of 8-bit characters here; the code points below 256 that
  Python counts as whitespace are 9 to 13, 28 to 32, 133 and 160.
\<close>

definition isspace :: "char \<Rightarrow> bool" where
  "isspace c = (of_char c \<in> {9, 10, 11, 12, 13, 28, 29, 30, 31, 32, 133, 160 :: nat})"

definition lstrip :: "string \<Rightarrow> string" where
  "lstrip s = dropWhile isspace s"

definition rstrip :: "string \<Rightarrow> string" where
  "rstrip s = rev (dropWhile isspace (rev s))"

definition strip :: "string \<Rightarrow> string" where
  "strip s = rstrip (lstrip s)"

section \<open>The parsed document\<close>

text \<open>
  BeautifulSoup is a library, not code of this repository. A matched element is
  modelled by what the engine reads from it: its text strings in document order (the
  \<^verbatim>\<open>NavigableString\<close>s below the tag) and its attributes. \<^verbatim>\<open>get_text(strip=True)\<close>
  is modelled from the library's documented behaviour: every string is stripped,
  strings that are empty after stripping are dropped, and the rest are joined with the
  empty separator. \<^verbatim>\<open>element.get(name)\<close> is the attribute's value as the parser holds
  it: a string, a list of strings for a multi-valued attribute such as \<^verbatim>\<open>class\<close> or
  \<^verbatim>\<open>rel\<close>, and None when the element lacks the attribute.
  The document itself is modelled by its \<^verbatim>\<open>select\<close> method.
\<close>

record tag =
  strings :: "string list"
  attrs :: "(string \<times> pyval) list"

type_synonym soup = "string \<Rightarrow> tag list"

definition get_text_strip :: "tag \<Rightarrow> string" where
  "get_text_strip element = concat (filter (\<lambda>s. s \<noteq> []) (map strip (strings element)))"

definition tag_get :: "tag \<Rightarrow> string \<Rightarrow> pyval" where
  "tag_get element name =
     (case map_of (attrs element) name of None \<Rightarrow> PyNone | Some v \<Rightarrow> v)"

section \<open>The schema\<close>

text \<open>
  A processor is a callable from a value to a value that may raise. A field schema is a
  selector string, a dictionary with the keys the engine reads, or anything else.
\<close>

type_synonym processor = "pyval \<Rightarrow> exn + pyval"

record dict_schema =
  selector :: "string option"
  attribute :: "string option"
  multiple :: bool
  processors :: "processor list"

datatype field_schema =
    StrSchema string
  | DictSchema dict_schema
  | OtherSchema

type_synonym schema = "(string \<times> field_schema) list"

section \<open>RequestsEngine._extract_data\<close>

text \<open>The loop \<^verbatim>\<open>for processor in processors: if value is not None: value = processor(value)\<close>.\<close>

fun apply_processors :: "processor list \<Rightarrow> pyval \<Rightarrow> exn + pyval" where
  "apply_processors [] v = Inr v"
| "apply_processors (p # ps) v =
     (if v \<noteq> PyNone
      then (case p v of Inl e \<Rightarrow> Inl e | Inr v' \<Rightarrow> apply_processors ps v')
      else apply_processors ps v)"

text \<open>The body of \<^verbatim>\<open>for element in elements\<close>: \<^verbatim>\<open>if attribute:\<close> is false for None and for the empty string.\<close>

definition element_value :: "dict_schema \<Rightarrow> tag \<Rightarrow> exn + pyval" where
  "element_value fs element =
     apply_processors (processors fs)
       (case attribute fs of
          None \<Rightarrow> PyStr (get_text_strip element)
        | Some a \<Rightarrow> if a \<noteq> [] then tag_get element a else PyStr (get_text_strip element))"

fun extract_elements :: "dict_schema \<Rightarrow> tag list \<Rightarrow> pyval list \<Rightarrow> exn + pyval list" where
  "extract_elements fs [] extracted_data = Inr extracted_data"
| "extract_elements fs (element # elements) extracted_data =
     (case element_value fs element of
        Inl e \<Rightarrow> Inl e
      | Inr v \<Rightarrow> extract_elements fs elements (extracted_data @ [v]))"

text \<open>
  The loop over \<^verbatim>\<open>schema.items()\<close>, with the result dictionary and the log as
  accumulators. An exception of a processor leaves the loop at once.
\<close>

fun extract_data_loop ::
  "soup \<Rightarrow> schema \<Rightarrow> py_dict \<Rightarrow> log_record list \<Rightarrow> (exn + py_dict) \<times> log_record list" where
  "extract_data_loop soup [] result lg = (Inr result, lg)"
| "extract_data_loop soup ((field_name, StrSchema sel) # rest) result lg =
     (let elements = soup sel in
      if elements \<noteq> [] then
        if length elements > 1 then
          extract_data_loop soup rest
            (dict_set result field_name (PyList (map (\<lambda>element. PyStr (get_text_strip element)) elements))) lg
        else
          extract_data_loop soup rest
            (dict_set result field_name (PyStr (get_text_strip (elements ! 0)))) lg
      else extract_data_loop soup rest (dict_set result field_name PyNone) lg)"
| "extract_data_loop soup ((field_name, DictSchema fs) # rest) result lg =
     (case selector fs of
        None \<Rightarrow>
          extract_data_loop soup rest result
            (lg @ [LogWarning (''No selector provided for field '' @ field_name)])
      | Some sel \<Rightarrow>
          if sel = [] then
            extract_data_loop soup rest result
              (lg @ [LogWarning (''No selector provided for field '' @ field_name)])
          else
            (let elements = soup sel in
             if elements = [] then
               extract_data_loop soup rest
                 (dict_set result field_name (if multiple fs then PyList [] else PyNone)) lg
             else
               (case extract_elements fs elements [] of
                  Inl e \<Rightarrow> (Inl e, lg)
                | Inr extracted_data \<Rightarrow>
                    if multiple fs then
                      extract_data_loop soup rest (dict_set result field_name (PyList extracted_data)) lg
                    else
                      extract_data_loop soup rest
                        (dict_set result field_name
                           (if extracted_data \<noteq> [] then extracted_data ! 0 else PyNone)) lg)))"
| "extract_data_loop soup ((field_name, OtherSchema) # rest) result lg =
     extract_data_loop soup rest result lg"

definition extract_data ::
  "soup \<Rightarrow> schema \<Rightarrow> log_record list \<Rightarrow> (exn + py_dict) \<times> log_record list" where
  "extract_data soup schema lg = extract_data_loop soup schema [] lg"

section \<open>Configuration, process state and the outside world\<close>

text \<open>The dataclass \<^verbatim>\<open>ScraperConfig\<close>, field by field. Seconds are real numbers.\<close>

record ScraperConfig =
  engine :: string
  browser :: string
  headless :: bool
  user_agent :: string
  user_agent_rotation :: bool
  user_agent_list_path :: string
  use_proxies :: bool
  proxy_rotation_policy :: string
  proxy_list_path :: string
  respect_robots_txt :: bool
  request_delay :: real
  max_requests_per_minute :: int
  max_retries :: int
  timeout :: int
  verify_ssl :: bool
  cookies :: "(string \<times> string) list"
  headers :: "(string \<times> string) list"
  solve_captchas :: bool
  captcha_service :: string
  captcha_api_key :: string
  log_level :: string
  data_dir :: string

text \<open>
  \<^verbatim>\<open>urllib.robotparser.RobotFileParser\<close> is the standard library's. Its \<^verbatim>\<open>read\<close>
  opens the robots.txt URL: an \<^verbatim>\<open>HTTPError\<close> is caught inside \<^verbatim>\<open>read\<close> (status 401
  and 403 set \<^verbatim>\<open>disallow_all\<close>, any other status from 400 to 499 sets
  \<^verbatim>\<open>allow_all\<close>, any other status sets nothing), every other exception leaves
  \<^verbatim>\<open>read\<close>, and a body is parsed, which sets \<^verbatim>\<open>last_checked\<close>. Its
  \<^verbatim>\<open>can_fetch\<close> answers False under \<^verbatim>\<open>disallow_all\<close>, True under \<^verbatim>\<open>allow_all\<close>,
  False while nothing has been parsed, and otherwise what the parsed rules say. The
  rules are modelled by their verdict for a user agent and a path (or an exception),
  and \<^verbatim>\<open>last_checked\<close> by whether a body has been parsed.
\<close>

datatype robots_response =
    Raises exn
  | HTTPErrorStatus nat
  | Body "string \<Rightarrow> string \<Rightarrow> exn + bool"

record robot_file_parser =
  disallow_all :: bool
  allow_all :: bool
  last_checked :: bool
  rules :: "string \<Rightarrow> string \<Rightarrow> exn + bool"

definition RobotFileParser_read :: "robots_response \<Rightarrow> exn + robot_file_parser" where
  "RobotFileParser_read r =
     (case r of
        Raises e \<Rightarrow> Inl e
      | HTTPErrorStatus code \<Rightarrow>
          Inr \<lparr>disallow_all = (code = 401 \<or> code = 403),
               allow_all = (code \<noteq> 401 \<and> code \<noteq> 403 \<and> 400 \<le> code \<and> code < 500),
               last_checked = False,
               rules = (\<lambda>useragent url. Inr True)\<rparr>
      | Body verdict \<Rightarrow>
          Inr \<lparr>disallow_all = False, allow_all = False, last_checked = True, rules = verdict\<rparr>)"

definition RobotFileParser_can_fetch :: "robot_file_parser \<Rightarrow> string \<Rightarrow> string \<Rightarrow> exn + bool" where
  "RobotFileParser_can_fetch parser useragent url =
     (if disallow_all parser then Inr False
      else if allow_all parser then Inr True
      else if \<not> last_checked parser then Inr False
      else rules parser useragent url)"

text \<open>
  The mutable state of the process: the \<^verbatim>\<open>ScraperConfig\<close> object that the scraper and
  its engine share (both hold a reference to the one object, so its fields are read from
  here at each use), the module-level variables of \<^verbatim>\<open>proxy_manager\<close>,
  \<^verbatim>\<open>user_agent_manager\<close> and \<^verbatim>\<open>robots_txt\<close>, the session's headers and cookies, and
  what the process has done so far: the warnings and errors it logged, the
  \<^verbatim>\<open>time.sleep\<close> calls, the files it wrote, and how many times it called
  \<^verbatim>\<open>session.get\<close>, \<^verbatim>\<open>random.choice\<close> and \<^verbatim>\<open>time.time\<close>. Records logged at info and
  debug level are not kept.
\<close>

record world =
  config_object :: ScraperConfig
  logged :: "log_record list"
  slept :: "real list"
  proxies_cache :: "string list option"
  current_proxy_index :: nat
  user_agents_cache :: "string list option"
  random_calls :: nat
  session_headers :: "(string \<times> string) list"
  session_cookies :: "(string \<times> string) list"
  requests_sent :: nat
  robots_parsers :: "(string \<times> robot_file_parser) list"
  robots_parsers_last_used :: "(string \<times> real) list"
  time_calls :: nat
  files_written :: "(string \<times> string list) list"

record parsed_url =
  scheme :: string
  netloc :: string
  path :: string

record request =
  req_url :: string
  req_headers :: "(string \<times> string) list"
  req_cookies :: "(string \<times> string) list"
  req_timeout :: int
  req_verify :: bool
  req_proxies :: "string option"

record response =
  status_code :: nat
  response_text :: string

text \<open>
  The collaborators outside the repository: \<^verbatim>\<open>urllib.parse.urlparse\<close>, which raises
  ValueError on some strings (an unmatched bracket in the host, for one), what opening a
  robots.txt URL gives, the HTTP transport (by the request and the number of requests
  sent before it), the headers a new session starts with, the HTML parser, the lines of
  a text file (None when the file does not exist), whether writing a file fails, the
  random source and the clock (both by call number).
\<close>

record env =
  urlparse :: "string \<Rightarrow> exn + parsed_url"
  robots_txt_open :: "string \<Rightarrow> robots_response"
  http_get :: "request \<Rightarrow> nat \<Rightarrow> exn + response"
  default_headers :: "(string \<times> string) list"
  BeautifulSoup :: "string \<Rightarrow> soup"
  file_lines :: "string \<Rightarrow> (exn + string list) option"
  file_write_error :: "string \<Rightarrow> exn option"
  random_number :: "nat \<Rightarrow> nat"
  time_time :: "nat \<Rightarrow> real"

definition logger_warning :: "string \<Rightarrow> world \<Rightarrow> world" where
  "logger_warning msg w = w\<lparr>logged := logged w @ [LogWarning msg]\<rparr>"

definition logger_error :: "string \<Rightarrow> exn \<Rightarrow> world \<Rightarrow> world" where
  "logger_error msg e w = w\<lparr>logged := logged w @ [LogError msg e]\<rparr>"

definition time_sleep :: "real \<Rightarrow> world \<Rightarrow> world" where
  "time_sleep seconds w = w\<lparr>slept := slept w @ [seconds]\<rparr>"

text \<open>\<^verbatim>\<open>random.choice(seq)\<close>: IndexError on an empty sequence.\<close>

definition random_choice :: "env \<Rightarrow> 'a list \<Rightarrow> world \<Rightarrow> (exn + 'a) \<times> world" where
  "random_choice ev seq w =
     (if seq = [] then (Inl IndexError, w)
      else (Inr (seq ! (random_number ev (random_calls w) mod length seq)),
            w\<lparr>random_calls := random_calls w + 1\<rparr>))"

text \<open>\<^verbatim>\<open>[line.strip() for line in f if line.strip()]\<close>\<close>

definition stripped_lines :: "string list \<Rightarrow> string list" where
  "stripped_lines lines = map strip (filter (\<lambda>line. strip line \<noteq> []) lines)"

section \<open>proxy\_manager\<close>

definition load_proxies :: "env \<Rightarrow> string \<Rightarrow> world \<Rightarrow> string list \<times> world" where
  "load_proxies ev file_path w =
     (case proxies_cache w of
        Some cached \<Rightarrow> (cached, w)
      | None \<Rightarrow>
          (case file_lines ev file_path of
             None \<Rightarrow> ([], logger_warning (''Proxy file not found: '' @ file_path) w)
           | Some (Inl e) \<Rightarrow>
               ([], logger_error (''Error loading proxies from '' @ file_path) e w)
           | Some (Inr lines) \<Rightarrow>
               (let proxies = stripped_lines lines in
                if proxies = [] then
                  ([], logger_warning (''No proxies found in '' @ file_path) w)
                else (proxies, w\<lparr>proxies_cache := Some proxies\<rparr>))))"

definition get_proxy :: "env \<Rightarrow> string \<Rightarrow> string \<Rightarrow> world \<Rightarrow> (exn + string option) \<times> world" where
  "get_proxy ev file_path rotation_policy w =
     (case load_proxies ev file_path w of (proxies, w1) \<Rightarrow>
        if proxies = [] then (Inr None, w1)
        else if rotation_policy = ''random'' then
          (case random_choice ev proxies w1 of
             (Inl e, w2) \<Rightarrow> (Inl e, w2)
           | (Inr proxy, w2) \<Rightarrow> (Inr (Some proxy), w2))
        else if rotation_policy = ''round-robin'' then
          (if current_proxy_index w1 < length proxies then
             (Inr (Some (proxies ! current_proxy_index w1)),
              w1\<lparr>current_proxy_index := (current_proxy_index w1 + 1) mod length proxies\<rparr>)
           else (Inl IndexError, w1))
        else
          (case random_choice ev proxies
                  (logger_warning (''Unknown proxy rotation policy: '' @ rotation_policy) w1) of
             (Inl e, w2) \<Rightarrow> (Inl e, w2)
           | (Inr proxy, w2) \<Rightarrow> (Inr (Some proxy), w2)))"

text \<open>
  \<^verbatim>\<open>remove_proxy\<close>. The list that \<^verbatim>\<open>_load_proxies\<close> returns is the cached list
  object itself whenever it is not empty, so \<^verbatim>\<open>proxies.remove(proxy)\<close> (which removes
  the first occurrence) shortens the cache in place, before the file is written and also
  when writing fails. The variable \<^verbatim>\<open>_current_proxy_index\<close> is not touched.
\<close>

definition remove_proxy :: "env \<Rightarrow> string \<Rightarrow> string \<Rightarrow> world \<Rightarrow> world" where
  "remove_proxy ev file_path proxy w =
     (case load_proxies ev file_path w of (proxies, w1) \<Rightarrow>
        if proxy \<notin> set proxies then w1
        else
          (let remaining = remove1 proxy proxies;
               w2 = (case proxies_cache w1 of
                       None \<Rightarrow> w1
                     | Some cached \<Rightarrow> w1\<lparr>proxies_cache := Some remaining\<rparr>) in
           case file_write_error ev file_path of
             Some e \<Rightarrow>
               logger_error (''Error removing proxy '' @ proxy @ '' from '' @ file_path) e w2
           | None \<Rightarrow>
               w2\<lparr>files_written :=
                    files_written w2 @ [(file_path, map (\<lambda>p. p @ [CHR 0x0A]) remaining)]\<rparr>))"

text \<open>\<open>n\<close> calls of \<^verbatim>\<open>get_proxy\<close> one after the other, with what each returned.\<close>

fun get_proxy_times ::
  "nat \<Rightarrow> env \<Rightarrow> string \<Rightarrow> string \<Rightarrow> world \<Rightarrow> (exn + string option) list \<times> world" where
  "get_proxy_times 0 ev file_path rotation_policy w = ([], w)"
| "get_proxy_times (Suc n) ev file_path rotation_policy w =
     (case get_proxy ev file_path rotation_policy w of (r, w1) \<Rightarrow>
        (case get_proxy_times n ev file_path rotation_policy w1 of (rs, w2) \<Rightarrow> (r # rs, w2)))"

section \<open>user\_agent\_manager\<close>

definition DEFAULT_USER_AGENTS :: "string list" where
  "DEFAULT_USER_AGENTS =
    [''Mozilla/5.0 (Windows NT 10.0; Win64; x64) AppleWebKit/537.36 (KHTML, like Gecko) Chrome/91.0.4472.124 Safari/537.36'',
     ''Mozilla/5.0 (Macintosh; Intel Mac OS X 10_15_7) AppleWebKit/537.36 (KHTML, like Gecko) Chrome/91.0.4472.114 Safari/537.36'',
     ''Mozilla/5.0 (X11; Linux x86_64) AppleWebKit/537.36 (KHTML, like Gecko) Chrome/91.0.4472.101 Safari/537.36'',
     ''Mozilla/5.0 (Windows NT 10.0; Win64; x64; rv:89.0) Gecko/20100101 Firefox/89.0'',
     ''Mozilla/5.0 (Macintosh; Intel Mac OS X 10.15; rv:89.0) Gecko/20100101 Firefox/89.0'',
     ''Mozilla/5.0 (X11; Linux i686; rv:89.0) Gecko/20100101 Firefox/89.0'',
     ''Mozilla/5.0 (Macintosh; Intel Mac OS X 10_15_7) AppleWebKit/605.1.15 (KHTML, like Gecko) Version/14.1.1 Safari/605.1.15'',
     ''Mozilla/5.0 (Windows NT 10.0; Win64; x64) AppleWebKit/537.36 (KHTML, like Gecko) Chrome/91.0.4472.124 Safari/537.36 Edg/91.0.864.59'',
     ''Mozilla/5.0 (Windows NT 10.0; Win64; x64) AppleWebKit/537.36 (KHTML, like Gecko) Chrome/91.0.4472.124 Safari/537.36 OPR/77.0.4054.254'']"

definition load_user_agents :: "env \<Rightarrow> string \<Rightarrow> world \<Rightarrow> string list \<times> world" where
  "load_user_agents ev file_path w =
     (case user_agents_cache w of
        Some cached \<Rightarrow> (cached, w)
      | None \<Rightarrow>
          (case file_lines ev file_path of
             None \<Rightarrow>
               (DEFAULT_USER_AGENTS, logger_warning (''User agent file not found: '' @ file_path) w)
           | Some (Inl e) \<Rightarrow>
               (DEFAULT_USER_AGENTS,
                logger_error (''Error loading user agents from '' @ file_path) e w)
           | Some (Inr lines) \<Rightarrow>
               (let user_agents = stripped_lines lines in
                if user_agents = [] then
                  (DEFAULT_USER_AGENTS,
                   logger_warning (''No user agents found in '' @ file_path) w)
                else (user_agents, w\<lparr>user_agents_cache := Some user_agents\<rparr>))))"

text \<open>The engine always passes a path, so the branch for \<^verbatim>\<open>file_path is None\<close> is left out.\<close>

definition get_random_user_agent :: "env \<Rightarrow> string \<Rightarrow> world \<Rightarrow> (exn + string) \<times> world" where
  "get_random_user_agent ev file_path w =
     (case load_user_agents ev file_path w of (user_agents, w1) \<Rightarrow>
        random_choice ev user_agents w1)"

section \<open>RequestsEngine\<close>

text \<open>
  The decorator \<^verbatim>\<open>@retry(stop=stop_after_attempt(3), wait=wait_fixed(2))\<close> of the tenacity
  library: call the function; on an exception stop with \<^verbatim>\<open>RetryError\<close> (which carries
  the last exception) once the attempt number has reached the bound, otherwise sleep
  the fixed wait and call again. The attempt number reached is returned beside the
  result (tenacity keeps it in the function's retry statistics).
\<close>

function retry_call ::
  "(world \<Rightarrow> (exn + 'a) \<times> world) \<Rightarrow> nat \<Rightarrow> real \<Rightarrow> nat \<Rightarrow> world \<Rightarrow> (exn + 'a) \<times> nat \<times> world" where
  "retry_call fn stop_after_attempt wait_fixed attempt_number w =
     (case fn w of
        (Inr v, w1) \<Rightarrow> (Inr v, attempt_number, w1)
      | (Inl e, w1) \<Rightarrow>
          if attempt_number \<ge> stop_after_attempt then (Inl (RetryError e), attempt_number, w1)
          else retry_call fn stop_after_attempt wait_fixed (attempt_number + 1)
                 (time_sleep wait_fixed w1))"
  by pat_completeness auto
termination
  by (relation "measure (\<lambda>(fn, stop_after_attempt, wait_fixed, attempt_number, w).
        stop_after_attempt - attempt_number)") auto

declare retry_call.simps [simp del]

text \<open>\<^verbatim>\<open>RequestsEngine.__init__\<close>: a new session with the configured headers and cookies.\<close>

definition dict_update :: "('k \<times> 'v) list \<Rightarrow> ('k \<times> 'v) list \<Rightarrow> ('k \<times> 'v) list" where
  "dict_update d other = fold (\<lambda>(k, v) acc. dict_set acc k v) other d"

definition RequestsEngine_init :: "env \<Rightarrow> ScraperConfig \<Rightarrow> world \<Rightarrow> world" where
  "RequestsEngine_init ev cfg w =
     w\<lparr>session_headers := dict_update (default_headers ev) (headers cfg),
       session_cookies := (if cookies cfg \<noteq> [] then dict_update [] (cookies cfg) else [])\<rparr>"

text \<open>The steps of the body of \<^verbatim>\<open>_fetch_page\<close>, one attempt.\<close>

definition rotate_user_agent :: "ScraperConfig \<Rightarrow> env \<Rightarrow> world \<Rightarrow> (exn + unit) \<times> world" where
  "rotate_user_agent cfg ev w =
     (if user_agent_rotation cfg then
        (case get_random_user_agent ev (user_agent_list_path cfg) w of
           (Inl e, w1) \<Rightarrow> (Inl e, w1)
         | (Inr ua, w1) \<Rightarrow>
             (Inr (), w1\<lparr>session_headers := dict_set (session_headers w1) ''User-Agent'' ua\<rparr>))
      else (Inr (), w))"

definition choose_proxies :: "ScraperConfig \<Rightarrow> env \<Rightarrow> world \<Rightarrow> (exn + string option) \<times> world" where
  "choose_proxies cfg ev w =
     (if use_proxies cfg then
        (case get_proxy ev (proxy_list_path cfg) (proxy_rotation_policy cfg) w of
           (Inl e, w1) \<Rightarrow> (Inl e, w1)
         | (Inr None, w1) \<Rightarrow> (Inr None, w1)
         | (Inr (Some proxy), w1) \<Rightarrow> (Inr (if proxy \<noteq> [] then Some proxy else None), w1))
      else (Inr None, w))"

definition session_get ::
  "ScraperConfig \<Rightarrow> env \<Rightarrow> string \<Rightarrow> string option \<Rightarrow> world \<Rightarrow> (exn + response) \<times> world" where
  "session_get cfg ev url proxies w =
     (http_get ev
        \<lparr>req_url = url, req_headers = session_headers w, req_cookies = session_cookies w,
         req_timeout = timeout cfg, req_verify = verify_ssl cfg, req_proxies = proxies\<rparr>
        (requests_sent w),
      w\<lparr>requests_sent := requests_sent w + 1\<rparr>)"

definition raise_for_status :: "response \<Rightarrow> exn + unit" where
  "raise_for_status resp =
     (if 400 \<le> status_code resp \<and> status_code resp < 600
      then Inl (HTTPError (status_code resp)) else Inr ())"

definition fetch_page_attempt :: "ScraperConfig \<Rightarrow> env \<Rightarrow> string \<Rightarrow> world \<Rightarrow> (exn + string) \<times> world" where
  "fetch_page_attempt cfg ev url w =
     (case rotate_user_agent cfg ev w of
        (Inl e, w1) \<Rightarrow> (Inl e, w1)
      | (Inr _, w1) \<Rightarrow>
          (case choose_proxies cfg ev w1 of
             (Inl e, w2) \<Rightarrow> (Inl e, w2)
           | (Inr proxies, w2) \<Rightarrow>
               (case session_get cfg ev url proxies w2 of
                  (Inl e, w3) \<Rightarrow> (Inl e, w3)
                | (Inr resp, w3) \<Rightarrow>
                    (case raise_for_status resp of
                       Inl e \<Rightarrow> (Inl e, w3)
                     | Inr _ \<Rightarrow> (Inr (response_text resp), w3)))))"

text \<open>\<^verbatim>\<open>_fetch_page\<close> as decorated: the result, the number of attempts made, the new state.\<close>

definition fetch_page_attempts ::
  "ScraperConfig \<Rightarrow> env \<Rightarrow> string \<Rightarrow> world \<Rightarrow> (exn + string) \<times> nat \<times> world" where
  "fetch_page_attempts cfg ev url w = retry_call (fetch_page_attempt cfg ev url) 3 2 1 w"

definition fetch_page :: "ScraperConfig \<Rightarrow> env \<Rightarrow> string \<Rightarrow> world \<Rightarrow> (exn + string) \<times> world" where
  "fetch_page cfg ev url w =
     (case fetch_page_attempts cfg ev url w of (r, attempts, w1) \<Rightarrow> (r, w1))"

definition RequestsEngine_scrape ::
  "ScraperConfig \<Rightarrow> env \<Rightarrow> string \<Rightarrow> schema \<Rightarrow> world \<Rightarrow> py_dict \<times> world" where
  "RequestsEngine_scrape cfg ev url sch w =
     (case fetch_page cfg ev url w of
        (Inl e, w1) \<Rightarrow> ([], logger_error (''Error scraping '' @ url) e w1)
      | (Inr html, w1) \<Rightarrow>
          (case extract_data (BeautifulSoup ev html) sch (logged w1) of
             (Inl e, lg) \<Rightarrow> ([], logger_error (''Error scraping '' @ url) e (w1\<lparr>logged := lg\<rparr>))
           | (Inr result, lg) \<Rightarrow> (result, w1\<lparr>logged := lg\<rparr>)))"

section \<open>RobotsTxtChecker\<close>

definition robots_parsers_max_cache_size :: nat where
  "robots_parsers_max_cache_size = 100"

definition robots_parsers_cache_ttl :: real where
  "robots_parsers_cache_ttl = 3600"

text \<open>The two deletions of a cache entry; a KeyError leaves what was deleted before it.\<close>

definition del_parser :: "string \<Rightarrow> world \<Rightarrow> (exn + unit) \<times> world" where
  "del_parser base_url w =
     (case dict_del (robots_parsers w) base_url of
        Inl e \<Rightarrow> (Inl e, w)
      | Inr ps \<Rightarrow>
          (case dict_del (robots_parsers_last_used w) base_url of
             Inl e \<Rightarrow> (Inl e, w\<lparr>robots_parsers := ps\<rparr>)
           | Inr lu \<Rightarrow> (Inr (), w\<lparr>robots_parsers := ps, robots_parsers_last_used := lu\<rparr>)))"

fun remove_old :: "string list \<Rightarrow> real \<Rightarrow> world \<Rightarrow> (exn + unit) \<times> world" where
  "remove_old [] current_time w = (Inr (), w)"
| "remove_old (base_url # rest) current_time w =
     (let last_used =
            (case map_of (robots_parsers_last_used w) base_url of None \<Rightarrow> 0 | Some t \<Rightarrow> t) in
      if current_time - last_used > robots_parsers_cache_ttl then
        (case del_parser base_url w of
           (Inl e, w1) \<Rightarrow> (Inl e, w1)
         | (Inr _, w1) \<Rightarrow> remove_old rest current_time w1)
      else remove_old rest current_time w)"

fun remove_oldest :: "string list \<Rightarrow> world \<Rightarrow> (exn + unit) \<times> world" where
  "remove_oldest [] w = (Inr (), w)"
| "remove_oldest (base_url # rest) w =
     (case del_parser base_url w of
        (Inl e, w1) \<Rightarrow> (Inl e, w1)
      | (Inr _, w1) \<Rightarrow> remove_oldest rest w1)"

definition cleanup_old_parsers :: "env \<Rightarrow> world \<Rightarrow> (exn + unit) \<times> world" where
  "cleanup_old_parsers ev w =
     (if length (robots_parsers w) \<le> robots_parsers_max_cache_size then (Inr (), w)
      else
        (let current_time = time_time ev (time_calls w);
             w1 = w\<lparr>time_calls := time_calls w + 1\<rparr> in
         case remove_old (dict_keys (robots_parsers w1)) current_time w1 of
           (Inl e, w2) \<Rightarrow> (Inl e, w2)
         | (Inr _, w2) \<Rightarrow>
             if length (robots_parsers w2) > robots_parsers_max_cache_size then
               remove_oldest
                 (map fst
                    (take (length (robots_parsers w2) - robots_parsers_max_cache_size)
                       (sort_key snd (robots_parsers_last_used w2))))
                 w2
             else (Inr (), w2)))"

definition touch_parser :: "env \<Rightarrow> string \<Rightarrow> world \<Rightarrow> world" where
  "touch_parser ev base_url w =
     w\<lparr>robots_parsers_last_used :=
         dict_set (robots_parsers_last_used w) base_url (time_time ev (time_calls w)),
       time_calls := time_calls w + 1\<rparr>"

definition get_robots_parser ::
  "env \<Rightarrow> string \<Rightarrow> world \<Rightarrow> (exn + robot_file_parser option) \<times> world" where
  "get_robots_parser ev base_url w =
     (case cleanup_old_parsers ev w of
        (Inl e, w1) \<Rightarrow> (Inl e, w1)
      | (Inr _, w1) \<Rightarrow>
          (case map_of (robots_parsers w1) base_url of
             Some parser \<Rightarrow> (Inr (Some parser), touch_parser ev base_url w1)
           | None \<Rightarrow>
               (case RobotFileParser_read (robots_txt_open ev (base_url @ ''/robots.txt'')) of
                  Inl e \<Rightarrow>
                    (Inr None, logger_error (''Error reading robots.txt for '' @ base_url) e w1)
                | Inr parser \<Rightarrow>
                    (Inr (Some parser),
                     touch_parser ev base_url
                       (w1\<lparr>robots_parsers := dict_set (robots_parsers w1) base_url parser\<rparr>)))))"

text \<open>
  \<^verbatim>\<open>can_fetch\<close>. The call of \<^verbatim>\<open>urlparse\<close> comes before the \<^verbatim>\<open>try\<close>, so its
  exception leaves the method.
\<close>

definition can_fetch :: "env \<Rightarrow> string \<Rightarrow> string \<Rightarrow> world \<Rightarrow> (exn + bool) \<times> world" where
  "can_fetch ev ua url w =
     (case urlparse ev url of
        Inl e \<Rightarrow> (Inl e, w)
      | Inr parsed \<Rightarrow>
          (let base_url = scheme parsed @ ''://'' @ netloc parsed;
               pth = (if path parsed = [] then ''/'' else path parsed) in
           case get_robots_parser ev base_url w of
             (Inl e, w1) \<Rightarrow>
               (Inr True, logger_error (''Error checking robots.txt for '' @ url) e w1)
           | (Inr None, w1) \<Rightarrow> (Inr True, w1)
           | (Inr (Some parser), w1) \<Rightarrow>
               (case RobotFileParser_can_fetch parser ua pth of
                  Inl e \<Rightarrow>
                    (Inr True, logger_error (''Error checking robots.txt for '' @ url) e w1)
                | Inr allowed \<Rightarrow> (Inr allowed, w1))))"

section \<open>Scraper\<close>

text \<open>
  An engine object is modelled by its \<^verbatim>\<open>scrape\<close> method, which may raise (the one of
  \<^verbatim>\<open>BaseEngine\<close> does). The registry \<^verbatim>\<open>_engines\<close> maps a name to a constructor.
  The engine keeps a reference to the configuration object, not a copy: its methods read
  the object's fields as they are when they run.
\<close>

type_synonym engine_scrape = "string \<Rightarrow> schema \<Rightarrow> world \<Rightarrow> (exn + py_dict) \<times> world"

type_synonym engine_registry = "(string \<times> (ScraperConfig \<Rightarrow> world \<Rightarrow> engine_scrape \<times> world)) list"

record Scraper =
  scraper_engine :: engine_scrape
  robots_checker :: "string option"

definition RequestsEngine :: "env \<Rightarrow> ScraperConfig \<Rightarrow> world \<Rightarrow> engine_scrape \<times> world" where
  "RequestsEngine ev cfg w =
     (\<lambda>url sch w'.
        (case RequestsEngine_scrape (config_object w') ev url sch w' of (r, w1) \<Rightarrow> (Inr r, w1)),
      RequestsEngine_init ev cfg w)"

definition get_engine ::
  "engine_registry \<Rightarrow> string \<Rightarrow> ScraperConfig \<Rightarrow> world \<Rightarrow> (exn + engine_scrape) \<times> world" where
  "get_engine engines name cfg w =
     (case map_of engines name of
        None \<Rightarrow> (Inl (ValueError (''Engine '' @ name @ '' not found'')), w)
      | Some engine_cls \<Rightarrow> (case engine_cls cfg w of (eng, w1) \<Rightarrow> (Inr eng, w1)))"

text \<open>
  \<^verbatim>\<open>Scraper.__init__(engine, config)\<close>. The configuration object is the caller's (or a
  new \<^verbatim>\<open>ScraperConfig()\<close>, here \<open>fresh\<close>, when None is passed); it becomes the
  shared object of the state, and the assignment to \<^verbatim>\<open>self.config.engine\<close> changes it,
  before \<^verbatim>\<open>get_engine\<close> runs and so also when that raises. The robots checker copies the
  user agent at this moment.
\<close>

definition Scraper_init ::
  "engine_registry \<Rightarrow> ScraperConfig \<Rightarrow> string \<Rightarrow> ScraperConfig option \<Rightarrow> world
     \<Rightarrow> (exn + Scraper) \<times> world" where
  "Scraper_init engines fresh engine_name config w =
     (let cfg0 = (case config of None \<Rightarrow> fresh | Some c \<Rightarrow> c);
          cfg = (if engine_name \<noteq> [] \<and> engine_name \<noteq> engine cfg0
                 then cfg0\<lparr>engine := engine_name\<rparr> else cfg0) in
      case get_engine engines (engine cfg) cfg (w\<lparr>config_object := cfg\<rparr>) of
        (Inl e, w1) \<Rightarrow> (Inl e, w1)
      | (Inr eng, w1) \<Rightarrow>
          (Inr \<lparr>scraper_engine = eng,
                robots_checker =
                  (if respect_robots_txt (config_object w1)
                   then Some (user_agent (config_object w1)) else None)\<rparr>,
           w1))"

text \<open>
  \<^verbatim>\<open>Scraper.scrape\<close>. The robots check is called outside the \<^verbatim>\<open>try\<close>, so an exception
  of \<^verbatim>\<open>can_fetch\<close> leaves the method; an exception of the engine is caught.
\<close>

definition Scraper_scrape ::
  "Scraper \<Rightarrow> env \<Rightarrow> string \<Rightarrow> schema \<Rightarrow> world \<Rightarrow> (exn + py_dict) \<times> world" where
  "Scraper_scrape self ev url sch w =
     (case (case robots_checker self of
              None \<Rightarrow> (Inr True, w)
            | Some ua \<Rightarrow> can_fetch ev ua url w) of
        (Inl e, w1) \<Rightarrow> (Inl e, w1)
      | (Inr allowed, w1) \<Rightarrow>
          if \<not> allowed then
            (Inr [], logger_warning (''Robots.txt disallows scraping '' @ url) w1)
          else
            (let w2 = (if request_delay (config_object w1) > 0
                       then time_sleep (request_delay (config_object w1)) w1 else w1) in
             case scraper_engine self url sch w2 of
               (Inl e, w3) \<Rightarrow> (Inr [], logger_error (''Error scraping '' @ url) e w3)
             | (Inr result, w3) \<Rightarrow> (Inr result, w3)))"

text \<open>
  The loop of \<^verbatim>\<open>scrape_multiple\<close>, with the list \<^verbatim>\<open>results\<close> as accumulator. The call
  of \<^verbatim>\<open>self.scrape\<close> is in no \<^verbatim>\<open>try\<close>: its exception ends the loop and the method.
\<close>

fun scrape_multiple_loop ::
  "Scraper \<Rightarrow> env \<Rightarrow> string list \<Rightarrow> schema \<Rightarrow> py_dict list \<Rightarrow> world
     \<Rightarrow> (exn + py_dict list) \<times> world" where
  "scrape_multiple_loop self ev [] sch results w = (Inr results, w)"
| "scrape_multiple_loop self ev (url # urls) sch results w =
     (case Scraper_scrape self ev url sch w of
        (Inl e, w1) \<Rightarrow> (Inl e, w1)
      | (Inr result, w1) \<Rightarrow>
          if result \<noteq> [] then
            scrape_multiple_loop self ev urls sch
              (results @ [dict_set result ''url'' (PyStr url)]) w1
          else scrape_multiple_loop self ev urls sch results w1)"

definition scrape_multiple ::
  "Scraper \<Rightarrow> env \<Rightarrow> string list \<Rightarrow> schema \<Rightarrow> world \<Rightarrow> (exn + py_dict list) \<times> world" where
  "scrape_multiple self ev urls sch w = scrape_multiple_loop self ev urls sch [] w"

text \<open>
  What \<^verbatim>\<open>self.scrape\<close> returned for the URLs of the list, in the state the loop had
  reached, up to the first call that raised: the bookkeeping against which the returned
  list is stated.
\<close>

fun scrape_each ::
  "Scraper \<Rightarrow> env \<Rightarrow> string list \<Rightarrow> schema \<Rightarrow> world \<Rightarrow> (string \<times> py_dict) list" where
  "scrape_each self ev [] sch w = []"
| "scrape_each self ev (url # urls) sch w =
     (case Scraper_scrape self ev url sch w of
        (Inl e, w1) \<Rightarrow> []
      | (Inr result, w1) \<Rightarrow> (url, result) # scrape_each self ev urls sch w1)"

section \<open>CSVExporter.export\<close>

text \<open>
  The data is one dictionary or a list of dictionaries. What is written is modelled
  before the CSV dialect is applied: nothing (the empty file), or the header and, row by
  row, the values handed to the writer. \<^verbatim>\<open>csv.DictWriter.writerow\<close> raises ValueError
  for a key outside the field names and writes \<^verbatim>\<open>restval\<close>, the empty string, for a
  field name the row lacks. Python's \<^verbatim>\<open>str\<close> is a parameter.
\<close>

datatype export_data = OneDict py_dict | DictList "py_dict list"

datatype csv_file = EmptyFile | Table "string list" "pyval list list"

fun add_fieldnames :: "string list \<Rightarrow> string list \<Rightarrow> string list" where
  "add_fieldnames [] fieldnames = fieldnames"
| "add_fieldnames (key # keys) fieldnames =
     (if key \<notin> set fieldnames then add_fieldnames keys (fieldnames @ [key])
      else add_fieldnames keys fieldnames)"

fun collect_fieldnames :: "py_dict list \<Rightarrow> string list \<Rightarrow> string list" where
  "collect_fieldnames [] fieldnames = fieldnames"
| "collect_fieldnames (item # items) fieldnames =
     collect_fieldnames items (add_fieldnames (dict_keys item) fieldnames)"

fun convert_row :: "(pyval \<Rightarrow> string) \<Rightarrow> py_dict \<Rightarrow> py_dict \<Rightarrow> py_dict" where
  "convert_row py_str [] row = row"
| "convert_row py_str ((key, PyList xs) # item) row =
     convert_row py_str item (dict_set row key (PyStr (py_str (PyList xs))))"
| "convert_row py_str ((key, PyDict d) # item) row =
     convert_row py_str item (dict_set row key (PyStr (py_str (PyDict d))))"
| "convert_row py_str ((key, v) # item) row = convert_row py_str item (dict_set row key v)"

definition writerow :: "string list \<Rightarrow> py_dict \<Rightarrow> exn + pyval list" where
  "writerow fieldnames row =
     (if \<exists>key \<in> set (dict_keys row). key \<notin> set fieldnames
      then Inl (Exn ''dict contains fields not in fieldnames'')
      else Inr (map (\<lambda>key. case map_of row key of None \<Rightarrow> PyStr [] | Some v \<Rightarrow> v) fieldnames))"

fun write_rows ::
  "(pyval \<Rightarrow> string) \<Rightarrow> string list \<Rightarrow> py_dict list \<Rightarrow> pyval list list \<Rightarrow> exn + pyval list list" where
  "write_rows py_str fieldnames [] written = Inr written"
| "write_rows py_str fieldnames (item # items) written =
     (case writerow fieldnames (convert_row py_str item []) of
        Inl e \<Rightarrow> Inl e
      | Inr cells \<Rightarrow> write_rows py_str fieldnames items (written @ [cells]))"

definition export :: "(pyval \<Rightarrow> string) \<Rightarrow> export_data \<Rightarrow> exn + csv_file" where
  "export py_str data =
     (case (case data of OneDict d \<Rightarrow> [d] | DictList ds \<Rightarrow> ds) of
        [] \<Rightarrow> Inr EmptyFile
      | first # others \<Rightarrow>
          (let fieldnames = collect_fieldnames others (dict_keys first) in
           case write_rows py_str fieldnames (first # others) [] of
             Inl e \<Rightarrow> Inl e
           | Inr rows \<Rightarrow> Inr (Table fieldnames rows)))"

section \<open>The specification's wording, for comparison\<close>

text \<open>
  The specification's text normalisation: surrounding whitespace trimmed and every
  internal run of whitespace collapsed to one space.
\<close>

function collapse_whitespace :: "string \<Rightarrow> string" where
  "collapse_whitespace [] = []"
| "collapse_whitespace (c # cs) =
     (if isspace c then CHR '' '' # collapse_whitespace (dropWhile isspace cs)
      else c # collapse_whitespace cs)"
  by pat_completeness auto
termination
  by (relation "measure length") (auto simp: length_dropWhile_le less_Suc_eq_le)

definition spec_text :: "string \<Rightarrow> string" where
  "spec_text s = collapse_whitespace (strip s)"





text \<open>The specification's column set: every key, at the place where it is first seen.\<close>

definition first_seen :: "'a list \<Rightarrow> 'a list" where
  "first_seen xs = rev (remdups (rev xs))"

section \<open>Concrete inputs\<close>

text \<open>
  \<^verbatim>\<open>ScraperConfig()\<close> with no environment variable set, and the state of a new process
  in which that object has been constructed.
\<close>

definition default_config :: ScraperConfig where
  "default_config =
     \<lparr>engine = ''requests'', browser = ''chrome'', headless = True,
      user_agent = ''Mozilla/5.0 (Windows NT 10.0; Win64; x64) AppleWebKit/537.36 (KHTML, like Gecko) Chrome/91.0.4472.124 Safari/537.36'',
      user_agent_rotation = False, user_agent_list_path = ''./config/user_agents.txt'',
      use_proxies = False, proxy_rotation_policy = ''round-robin'',
      proxy_list_path = ''./config/proxies.txt'',
      respect_robots_txt = True, request_delay = 2, max_requests_per_minute = 30,
      max_retries = 3, timeout = 30, verify_ssl = True, cookies = [],
      headers =
        [(''User-Agent'', ''Mozilla/5.0 (Windows NT 10.0; Win64; x64) AppleWebKit/537.36 (KHTML, like Gecko) Chrome/91.0.4472.124 Safari/537.36''),
         (''Accept'', ''text/html,application/xhtml+xml,application/xml;q=0.9,image/webp,*/*;q=0.8''),
         (''Accept-Language'', ''en-US,en;q=0.5''),
         (''Accept-Encoding'', ''gzip, deflate, br''),
         (''Connection'', ''keep-alive''),
         (''Upgrade-Insecure-Requests'', ''1''),
         (''Cache-Control'', ''max-age=0'')],
      solve_captchas = False, captcha_service = ''2captcha'', captcha_api_key = [],
      log_level = ''INFO'', data_dir = ''./data''\<rparr>"

definition initial_world :: world where
  "initial_world =
     \<lparr>config_object = default_config,
      logged = [], slept = [], proxies_cache = None, current_proxy_index = 0,
      user_agents_cache = None, random_calls = 0, session_headers = [],
      session_cookies = [], requests_sent = 0, robots_parsers = [],
      robots_parsers_last_used = [], time_calls = 0, files_written = []\<rparr>"

text \<open>A document with one \<^verbatim>\<open>h1\<close> and two anchors, and a document whose paragraph has two spaces inside.\<close>

definition h1_tag :: tag where
  "h1_tag = \<lparr>strings = [''Hi''], attrs = []\<rparr>"

definition a_tag :: "string \<Rightarrow> tag" where
  "a_tag href = \<lparr>strings = [], attrs = [(''href'', PyStr href)]\<rparr>"

definition scenario_soup :: soup where
  "scenario_soup sel =
     (if sel = ''h1'' then [h1_tag]
      else if sel = ''a'' then [a_tag ''/a'', a_tag ''/b'']
      else [])"

definition scenario_schema :: schema where
  "scenario_schema =
     [(''title'', StrSchema ''h1''),
      (''links'', DictSchema \<lparr>selector = Some ''a'', attribute = Some ''href'',
                               multiple = True, processors = []\<rparr>)]"

definition scenario_record :: py_dict where
  "scenario_record = [(''title'', PyStr ''Hi''), (''links'', PyList [PyStr ''/a'', PyStr ''/b''])]"

definition two_spaces_soup :: soup where
  "two_spaces_soup sel = (if sel = ''p'' then [\<lparr>strings = [''a  b''], attrs = []\<rparr>] else [])"







text \<open>The same schema with a processor that raises on every value.\<close>

definition failing_processor :: processor where
  "failing_processor v = Inl (Exn ''could not convert'')"

definition fault_schema :: schema where
  "fault_schema =
     [(''title'', StrSchema ''h1''),
      (''links'', DictSchema \<lparr>selector = Some ''a'', attribute = Some ''href'',
                               multiple = True, processors = [failing_processor]\<rparr>)]"

text \<open>
  A site \<^verbatim>\<open>https://x\<close> whose robots.txt disallows \<^verbatim>\<open>/private\<close>, whose page
  \<^verbatim>\<open>/2\<close> cannot be fetched and whose other pages are the document above. The
  string \<^verbatim>\<open>http://[::1\<close> has an opening bracket without its closing one:
  \<^verbatim>\<open>urlparse\<close> raises \<^verbatim>\<open>ValueError("Invalid IPv6 URL")\<close> on it.
\<close>

definition site_urlparse :: "string \<Rightarrow> exn + parsed_url" where
  "site_urlparse url =
     (if take 9 url = ''https://x''
      then Inr \<lparr>scheme = ''https'', netloc = ''x'', path = drop 9 url\<rparr>
      else if url = ''http://[::1'' then Inl (ValueError ''Invalid IPv6 URL'')
      else Inr \<lparr>scheme = [], netloc = [], path = url\<rparr>)"

definition site_robots :: "string \<Rightarrow> string \<Rightarrow> exn + bool" where
  "site_robots ua pth = Inr (take 8 pth \<noteq> ''/private'')"

definition site_env :: env where
  "site_env =
     \<lparr>urlparse = site_urlparse,
      robots_txt_open = (\<lambda>url. Body site_robots),
      http_get = (\<lambda>req n. if req_url req = ''https://x/2'' then Inl (Exn ''connection refused'')
                           else Inr \<lparr>status_code = 200, response_text = ''<h1>Hi</h1><a href=/a></a><a href=/b></a>''\<rparr>),
      default_headers = [],
      BeautifulSoup = (\<lambda>html. scenario_soup),
      file_lines = (\<lambda>file_path. None),
      file_write_error = (\<lambda>file_path. None),
      random_number = (\<lambda>k. 0),
      time_time = (\<lambda>k. real k)\<rparr>"

text \<open>
  The same site with a robots.txt that cannot be reached (opening it raises), one that
  is answered with status 403, and one that is answered with status 500.
\<close>

definition unreachable_env :: env where
  "unreachable_env = site_env\<lparr>robots_txt_open := (\<lambda>url. Raises (Exn ''unreachable''))\<rparr>"

definition forbidden_env :: env where
  "forbidden_env = site_env\<lparr>robots_txt_open := (\<lambda>url. HTTPErrorStatus 403)\<rparr>"

definition server_error_env :: env where
  "server_error_env = site_env\<lparr>robots_txt_open := (\<lambda>url. HTTPErrorStatus 500)\<rparr>"

definition site_scraper :: Scraper where
  "site_scraper =
     \<lparr>scraper_engine = fst (RequestsEngine site_env default_config initial_world),
      robots_checker = Some (user_agent default_config)\<rparr>"

text \<open>A transport that fails for the first requests and then answers.\<close>

definition flaky_env :: "nat \<Rightarrow> env" where
  "flaky_env failures =
     site_env\<lparr>http_get := (\<lambda>req n. if n < failures then Inl (Exn ''timed out'')
                                      else Inr \<lparr>status_code = 200, response_text = ''<h1>Hi</h1>''\<rparr>)\<rparr>"

text \<open>The registry with the one engine of the repository, and the state after \<^verbatim>\<open>Scraper()\<close>.\<close>

definition site_registry :: engine_registry where
  "site_registry = [(''requests'', RequestsEngine site_env)]"

definition site_world :: world where
  "site_world =
     RequestsEngine_init site_env default_config (initial_world\<lparr>config_object := default_config\<rparr>)"

text \<open>A schema with a field named \<^verbatim>\<open>url\<close>.\<close>

definition url_schema :: schema where
  "url_schema = [(''url'', StrSchema ''h1'')]"

text \<open>A proxy file with two entries and a blank line, its lines as read.\<close>

definition proxies_env :: env where
  "proxies_env =
     site_env\<lparr>file_lines :=
       (\<lambda>file_path. if file_path = ''./config/proxies.txt''
                     then Some (Inr [''http://p1:8080'' @ [CHR 0x0A], [CHR 0x0A],
                                     '' http://p2:8080'' @ [CHR 0x0A]])
                     else None)\<rparr>"

text \<open>
  A proxy file with three entries, and the state of a process that has selected twice
  from it by round-robin and then removed the third entry.
\<close>

definition three_proxies_env :: env where
  "three_proxies_env =
     site_env\<lparr>file_lines :=
       (\<lambda>file_path. if file_path = ''./config/proxies.txt''
                     then Some (Inr [''http://p1:8080'' @ [CHR 0x0A], ''http://p2:8080'' @ [CHR 0x0A],
                                     ''http://p3:8080'' @ [CHR 0x0A]])
                     else None)\<rparr>"

definition stale_cursor_world :: world where
  "stale_cursor_world =
     remove_proxy three_proxies_env ''./config/proxies.txt'' ''http://p3:8080''
       (snd (get_proxy_times 2 three_proxies_env ''./config/proxies.txt'' ''round-robin''
               initial_world))"

text \<open>
  The specification's cell for a value: a sequence or a mapping as its string
  representation, anything else as it is.
\<close>

definition serialized :: "(pyval \<Rightarrow> string) \<Rightarrow> pyval \<Rightarrow> pyval" where
  "serialized py_str v =
     (case v of PyList xs \<Rightarrow> PyStr (py_str v) | PyDict d \<Rightarrow> PyStr (py_str v) | _ \<Rightarrow> v)"

text \<open>Two records with different keys, and a stand-in for \<^verbatim>\<open>str\<close>.\<close>

definition csv_records :: "py_dict list" where
  "csv_records =
     [[(''a'', PyStr ''1''), (''b'', PyList [PyStr ''x'', PyStr ''y''])],
      [(''c'', PyNone), (''a'', PyStr ''2'')]]"

definition bracketed :: "pyval \<Rightarrow> string" where
  "bracketed v = ''[...]''"

text \<open>A configuration whose engine is not the default one.\<close>

definition selenium_config :: ScraperConfig where
  "selenium_config = default_config\<lparr>engine := ''selenium''\<rparr>"


section \<open>Properties\<close>

subsection \<open>The processor chain\<close>



subsection \<open>What the field loop leaves in the record\<close>

lemma map_of_dict_set:
  "map_of (dict_set d k v) k' = (if k' = k then Some v else map_of d k')"
  by (induction d) auto

lemma extract_data_loop_keeps:
  "name \<notin> fst ` set sch \<Longrightarrow> extract_data_loop soup sch result lg = (Inr r, lg')
   \<Longrightarrow> map_of r name = map_of result name"
proof (induction soup sch result lg rule: extract_data_loop.induct)
  case (1 soup result lg)
  then show ?case by simp
next
  case (2 soup field_name sel rest result lg)
  then show ?case
    by (auto simp: Let_def map_of_dict_set split: if_splits)
next
  case (3 soup field_name fs rest result lg)
  then show ?case
    by (auto simp: Let_def map_of_dict_set split: if_splits option.splits sum.splits)
next
  case (4 soup field_name rest result lg)
  then show ?case by simp
qed

lemma extract_data_loop_StrSchema:
  "distinct (map fst sch) \<Longrightarrow> (name, StrSchema sel) \<in> set sch
   \<Longrightarrow> extract_data_loop soup sch result lg = (Inr r, lg')
   \<Longrightarrow> map_of r name =
        Some (case soup sel of
                [] \<Rightarrow> PyNone
              | [element] \<Rightarrow> PyStr (get_text_strip element)
              | _ \<Rightarrow> PyList (map (\<lambda>element. PyStr (get_text_strip element)) (soup sel)))"
proof (induction soup sch result lg rule: extract_data_loop.induct)
  case (1 soup result lg)
  then show ?case by simp
next
  case (2 soup field_name sel' rest result lg)
  show ?case
  proof (cases "field_name = name")
    case True
    with 2 have sel: "sel' = sel" and notin: "name \<notin> fst ` set rest"
      by (auto simp: image_iff)
    from "2.prems"(3) True sel extract_data_loop_keeps[OF notin]
    show ?thesis
      by (cases "soup sel") (auto simp: Let_def map_of_dict_set split: if_splits list.splits)
  next
    case False
    with 2 show ?thesis
      by (auto simp: Let_def split: if_splits)
  qed
next
  case (3 soup field_name fs rest result lg)
  then show ?case
    by (auto simp: Let_def split: if_splits option.splits sum.splits)
next
  case (4 soup field_name rest result lg)
  then show ?case by simp
qed


subsection \<open>A raising processor ends the loop\<close>

lemma extract_elements_fault:
  "element \<in> set elements \<Longrightarrow> element_value fs element = Inl e
   \<Longrightarrow> isl (extract_elements fs elements acc)"
  by (induction elements arbitrary: acc) (auto split: sum.splits)

lemma extract_data_loop_fault:
  "(name, DictSchema fs) \<in> set sch \<Longrightarrow> selector fs = Some sel \<Longrightarrow> sel \<noteq> []
   \<Longrightarrow> element \<in> set (soup sel) \<Longrightarrow> element_value fs element = Inl e
   \<Longrightarrow> isl (fst (extract_data_loop soup sch result lg))"
proof (induction sch arbitrary: result lg)
  case Nil
  then show ?case by simp
next
  case (Cons field rest)
  obtain field_name fsch where field: "field = (field_name, fsch)"
    by (cases field)
  show ?case
  proof (cases "field = (name, DictSchema fs)")
    case True
    from extract_elements_fault[OF Cons.prems(4,5), of "[]"]
    obtain e' where "extract_elements fs (soup sel) [] = Inl e'"
      by (cases "extract_elements fs (soup sel) []") auto
    with True Cons.prems show ?thesis
      by (auto simp: Let_def)
  next
    case False
    with Cons have ih: "\<And>result lg. isl (fst (extract_data_loop soup rest result lg))"
      by auto
    show ?thesis
      unfolding field
      by (cases fsch) (simp_all add: ih Let_def split: option.splits sum.splits)
  qed
qed

subsection \<open>Stripping\<close>

lemma strip_decomp:
  "\<exists>l r. s = l @ strip s @ r \<and> list_all isspace l \<and> list_all isspace r"
proof -
  let ?t = "dropWhile isspace s"
  have 1: "s = takeWhile isspace s @ ?t" by simp
  have "rev ?t = takeWhile isspace (rev ?t) @ dropWhile isspace (rev ?t)" by simp
  then have "?t = rev (dropWhile isspace (rev ?t)) @ rev (takeWhile isspace (rev ?t))"
    by (metis rev_append rev_rev_ident)
  then have 2: "?t = strip s @ rev (takeWhile isspace (rev ?t))"
    by (simp add: strip_def lstrip_def rstrip_def)
  have 3: "list_all isspace (takeWhile isspace s)"
    by (simp add: list_all_iff) (meson set_takeWhileD)
  have 4: "list_all isspace (rev (takeWhile isspace (rev ?t)))"
    by (simp add: list_all_iff) (meson set_takeWhileD)
  from 1 2 have "s = takeWhile isspace s @ strip s @ rev (takeWhile isspace (rev ?t))"
    by metis
  with 3 4 show ?thesis by blast
qed

lemma strip_ends:
  assumes "strip s \<noteq> []"
  shows "\<not> isspace (hd (strip s)) \<and> \<not> isspace (last (strip s))"
proof -
  let ?t = "dropWhile isspace s"
  let ?u = "dropWhile isspace (rev ?t)"
  have u: "strip s = rev ?u" by (simp add: strip_def lstrip_def rstrip_def)
  with assms have une: "?u \<noteq> []" by simp
  then have "\<not> isspace (hd ?u)" by (rule hd_dropWhile)
  then have last: "\<not> isspace (last (strip s))"
    using u une by (simp add: last_rev)
  have "rev ?t = takeWhile isspace (rev ?t) @ ?u" by simp
  then have "?t = rev ?u @ rev (takeWhile isspace (rev ?t))"
    by (metis rev_append rev_rev_ident)
  with une have "hd ?t = hd (rev ?u)" and "?t \<noteq> []"
    by (metis hd_append2 rev_is_Nil_conv, metis Nil_is_append_conv rev_is_Nil_conv)
  moreover from \<open>?t \<noteq> []\<close> have "\<not> isspace (hd ?t)" by (rule hd_dropWhile)
  ultimately show ?thesis using last u by simp
qed


lemma concat_filter_nonempty: "concat (filter (\<lambda>s. s \<noteq> []) xs) = concat xs"
  by (induction xs) auto

lemma get_text_strip_concat: "get_text_strip element = concat (map strip (strings element))"
  by (simp add: get_text_strip_def concat_filter_nonempty)

subsection \<open>The scenario document\<close>

lemmas eval_text = get_text_strip_def strip_def lstrip_def rstrip_def isspace_def tag_get_def

lemmas eval_scenario = scenario_soup_def scenario_schema_def scenario_record_def h1_tag_def a_tag_def
  element_value_def extract_data_def

lemma scenario_extract:
  "extract_data scenario_soup scenario_schema lg = (Inr scenario_record, lg)"
  by (simp add: eval_scenario eval_text)

subsection \<open>Plain selector fields\<close>

text \<open>
  Claim C3, as amended. For a plain-selector field of a schema (a dictionary, so the
  field names are distinct) and a document on which the extraction completes, the
  field's value in the Record is null when the selector matches no node, the node's text
  as a scalar when it matches exactly one, and the sequence of the nodes' texts when it
  matches more. A node's text is its strings, each stripped, joined with nothing between
  them; stripping removes whitespace at the two ends only (the string is the stripped
  string between two runs of whitespace, and a non-empty stripped string neither starts
  nor ends with whitespace), so whitespace inside a string stays as it is.
\<close>

theorem plain_selector_field_value:
  assumes "distinct (map fst sch)" and "(name, StrSchema sel) \<in> set sch"
    and "extract_data soup sch lg = (Inr r, lg')"
  shows "map_of r name =
           Some (case soup sel of
                   [] \<Rightarrow> PyNone
                 | [element] \<Rightarrow> PyStr (get_text_strip element)
                 | _ \<Rightarrow> PyList (map (\<lambda>element. PyStr (get_text_strip element)) (soup sel)))
         \<and> (\<forall>element. get_text_strip element = concat (map strip (strings element)))
         \<and> (\<forall>s. \<exists>l r. s = l @ strip s @ r \<and> list_all isspace l \<and> list_all isspace r)
         \<and> (\<forall>s. strip s \<noteq> [] \<longrightarrow> \<not> isspace (hd (strip s)) \<and> \<not> isspace (last (strip s)))"
  using assms extract_data_loop_StrSchema[of sch name sel soup "[]" lg r lg']
    get_text_strip_concat strip_decomp strip_ends
  unfolding extract_data_def by blast

text \<open>The hypotheses hold for the title field of the scenario.\<close>

theorem plain_selector_field_value_witness:
  "distinct (map fst scenario_schema) \<and> (''title'', StrSchema ''h1'') \<in> set scenario_schema
   \<and> extract_data scenario_soup scenario_schema [] = (Inr scenario_record, [])
   \<and> map_of scenario_record ''title'' = Some (PyStr ''Hi'')"
proof -
  have h1: "distinct (map fst scenario_schema)" by (simp add: scenario_schema_def)
  have h2: "(''title'', StrSchema ''h1'') \<in> set scenario_schema" by (simp add: scenario_schema_def)
  have h3: "extract_data scenario_soup scenario_schema [] = (Inr scenario_record, [])"
    by (rule scenario_extract)
  from plain_selector_field_value[OF h1 h2 h3]
  have "map_of scenario_record ''title'' = Some (PyStr ''Hi'')"
    by (simp add: scenario_soup_def h1_tag_def eval_text)
  with h1 h2 h3 show ?thesis by blast
qed

text \<open>
  Claim C3 as stated fails: a paragraph whose text is \<open>a\<close>, two spaces, \<open>b\<close> is
  extracted with both spaces, where the stated normalisation gives one.
\<close>

theorem plain_selector_text_not_collapsed:
  "extract_data two_spaces_soup [(''text'', StrSchema ''p'')] [] = (Inr [(''text'', PyStr ''a  b'')], [])
   \<and> spec_text ''a  b'' = ''a b''"
  by (simp add: extract_data_def two_spaces_soup_def spec_text_def eval_text)

subsection \<open>Structured fields\<close>










subsection \<open>Processor faults\<close>

lemma retry_call_first_success:
  "fn w = (Inr v, w1) \<Longrightarrow> retry_call fn stop wait attempt w = (Inr v, attempt, w1)"
  by (subst retry_call.simps) simp

lemma site_fetch_1:
  "fetch_page default_config site_env ''https://x/1'' w =
     (Inr ''<h1>Hi</h1><a href=/a></a><a href=/b></a>'', w\<lparr>requests_sent := requests_sent w + 1\<rparr>)"
  by (simp add: fetch_page_def fetch_page_attempts_def retry_call_first_success
      fetch_page_attempt_def rotate_user_agent_def choose_proxies_def session_get_def
      raise_for_status_def default_config_def site_env_def)

lemma site_BeautifulSoup: "BeautifulSoup site_env html = scenario_soup"
  by (simp add: site_env_def)

text \<open>
  Claim C1, as amended. When the page has been fetched and a processor of a structured
  field raises on one matched element, the exception leaves \<^verbatim>\<open>_extract_data\<close>;
  \<^verbatim>\<open>RequestsEngine.scrape\<close> catches it, logs the error and returns the empty Record, so
  no field of the schema is returned.
\<close>

theorem processor_fault_empties_scrape:
  assumes "fetch_page cfg ev url w = (Inr html, w1)"
    and "(name, DictSchema fs) \<in> set sch" and "selector fs = Some sel" and "sel \<noteq> []"
    and "element \<in> set (BeautifulSoup ev html sel)" and "element_value fs element = Inl e"
  shows "fst (RequestsEngine_scrape cfg ev url sch w) = []
         \<and> (\<exists>e'. last (logged (snd (RequestsEngine_scrape cfg ev url sch w))) =
                    LogError (''Error scraping '' @ url) e')"
proof -
  from extract_data_loop_fault[where soup = "BeautifulSoup ev html" and result = "[]"
      and lg = "logged w1", OF assms(2,3,4,5,6)]
  obtain e' lg' where "extract_data (BeautifulSoup ev html) sch (logged w1) = (Inl e', lg')"
    unfolding extract_data_def
    by (cases "extract_data_loop (BeautifulSoup ev html) sch [] (logged w1)") (auto simp: isl_def)
  with assms(1) show ?thesis
    by (simp add: RequestsEngine_scrape_def logger_error_def)
qed

text \<open>The hypotheses hold for the scenario document and a processor that always raises.\<close>

theorem processor_fault_empties_scrape_witness:
  "fetch_page default_config site_env ''https://x/1'' initial_world =
      (Inr ''<h1>Hi</h1><a href=/a></a><a href=/b></a>'',
       initial_world\<lparr>requests_sent := 1\<rparr>)
   \<and> (''links'', DictSchema \<lparr>selector = Some ''a'', attribute = Some ''href'',
                               multiple = True, processors = [failing_processor]\<rparr>) \<in> set fault_schema
   \<and> a_tag ''/a'' \<in> set (scenario_soup ''a'')
   \<and> fst (RequestsEngine_scrape default_config site_env ''https://x/1'' fault_schema initial_world) = []"
proof -
  let ?fs = "\<lparr>selector = Some ''a'', attribute = Some ''href'', multiple = True,
              processors = [failing_processor]\<rparr>"
  let ?html = "''<h1>Hi</h1><a href=/a></a><a href=/b></a>''"
  have h1: "fetch_page default_config site_env ''https://x/1'' initial_world =
      (Inr ?html, initial_world\<lparr>requests_sent := 1\<rparr>)"
    by (simp add: site_fetch_1 initial_world_def)
  have h2: "(''links'', DictSchema ?fs) \<in> set fault_schema" by (simp add: fault_schema_def)
  have h3: "selector ?fs = Some ''a''" by simp
  have h4: "''a'' \<noteq> []" by simp
  have h5: "a_tag ''/a'' \<in> set (BeautifulSoup site_env ?html ''a'')"
    by (simp add: site_BeautifulSoup scenario_soup_def)
  have h6: "element_value ?fs (a_tag ''/a'') = Inl (Exn ''could not convert'')"
    by (simp add: element_value_def a_tag_def tag_get_def failing_processor_def)
  from processor_fault_empties_scrape[OF h1 h2 h3 h4 h5 h6] h1 h2 h5
  show ?thesis by (simp add: site_BeautifulSoup)
qed

text \<open>
  Claim C1 as stated fails: with a raising processor on the links the extraction ends
  with the processor's exception and the scrape returns the empty Record, although the
  title is there to be extracted, as the same scrape without the processor shows.
\<close>

theorem processor_fault_not_isolated:
  "fst (extract_data scenario_soup fault_schema []) = Inl (Exn ''could not convert'')
   \<and> fst (RequestsEngine_scrape default_config site_env ''https://x/1'' fault_schema initial_world) = []
   \<and> fst (RequestsEngine_scrape default_config site_env ''https://x/1'' scenario_schema initial_world) =
       scenario_record"
  by (simp add: RequestsEngine_scrape_def site_fetch_1 extract_data_def fault_schema_def
      scenario_soup_def h1_tag_def a_tag_def element_value_def failing_processor_def
      scenario_schema_def scenario_record_def logger_error_def eval_text site_BeautifulSoup)

subsection \<open>The page fetch and its retries\<close>

lemma rotate_user_agent_max_retries:
  "rotate_user_agent (cfg\<lparr>max_retries := n\<rparr>) = rotate_user_agent cfg"
  by (intro ext) (simp add: rotate_user_agent_def)

lemma choose_proxies_max_retries:
  "choose_proxies (cfg\<lparr>max_retries := n\<rparr>) = choose_proxies cfg"
  by (intro ext) (simp add: choose_proxies_def)

lemma session_get_max_retries:
  "session_get (cfg\<lparr>max_retries := n\<rparr>) = session_get cfg"
  by (intro ext) (simp add: session_get_def)

lemma fetch_page_attempt_max_retries:
  "fetch_page_attempt (cfg\<lparr>max_retries := n\<rparr>) ev url = fetch_page_attempt cfg ev url"
  unfolding fetch_page_attempt_def rotate_user_agent_max_retries choose_proxies_max_retries
    session_get_max_retries
  by (rule refl)

lemmas eval_fetch = fetch_page_attempts_def fetch_page_attempt_def rotate_user_agent_def
  choose_proxies_def session_get_def raise_for_status_def time_sleep_def

lemma always_fails_eval:
  "fetch_page_attempts (default_config\<lparr>max_retries := 5\<rparr>) site_env ''https://x/2'' initial_world =
     (Inl (RetryError (Exn ''connection refused'')), 3,
      initial_world\<lparr>slept := [2, 2], requests_sent := 3\<rparr>)"
  by (simp add: eval_fetch retry_call.simps default_config_def site_env_def initial_world_def)

lemma flaky_eval:
  "fetch_page_attempts (default_config\<lparr>max_retries := 5\<rparr>) (flaky_env 4) ''https://x/1'' initial_world =
     (Inl (RetryError (Exn ''timed out'')), 3,
      initial_world\<lparr>slept := [2, 2], requests_sent := 3\<rparr>)"
  by (simp add: eval_fetch retry_call.simps default_config_def flaky_env_def site_env_def initial_world_def)

lemma flaky_eval2:
  "fetch_page_attempts (default_config\<lparr>max_retries := 5\<rparr>) (flaky_env 2) ''https://x/1'' initial_world =
     (Inr ''<h1>Hi</h1>'', 3,
      initial_world\<lparr>slept := [2, 2], requests_sent := 3\<rparr>)"
  by (simp add: eval_fetch retry_call.simps default_config_def flaky_env_def site_env_def initial_world_def)


lemma retry_call_bound:
  "attempt \<le> stop \<Longrightarrow>
     attempt \<le> fst (snd (retry_call fn stop wait attempt w)) \<and>
     fst (snd (retry_call fn stop wait attempt w)) \<le> stop"
proof (induction fn stop wait attempt w rule: retry_call.induct)
  case (1 fn stop wait attempt w)
  show ?case
  proof (cases "fn w")
    case (Pair r w1)
    show ?thesis
    proof (cases r)
      case (Inl e)
      show ?thesis
      proof (cases "stop \<le> attempt")
        case True
        with Pair Inl "1.prems" show ?thesis
          by (subst (1 2) retry_call.simps) simp
      next
        case False
        with "1.IH"[OF Pair[symmetric] Inl False] Pair Inl show ?thesis
          by (subst (1 2) retry_call.simps) simp
      qed
    next
      case (Inr v)
      with Pair "1.prems" show ?thesis
        by (subst (1 2) retry_call.simps) simp
    qed
  qed
qed

lemma site_fetch_2:
  "fst (fetch_page default_config site_env ''https://x/2'' w) =
     Inl (RetryError (Exn ''connection refused''))"
  by (simp add: fetch_page_def eval_fetch retry_call.simps default_config_def site_env_def)

text \<open>
  Claim C2 asks for \<open>max_retries\<close> attempts. The decorated \<^verbatim>\<open>_fetch_page\<close> does not
  read the option: its result, its number of attempts and its effects are the same for
  every value of \<open>max_retries\<close>, and it never makes more than three attempts. With
  \<open>max_retries = 5\<close> and a page that always fails it stops after three attempts and two
  waits of two seconds, with the \<^verbatim>\<open>RetryError\<close> that carries the last failure; with
  \<open>max_retries = 5\<close> and a transport that fails four times and would then answer, it
  fails in the same way.
\<close>

theorem fetch_page_ignores_max_retries:
  "fetch_page_attempts (cfg\<lparr>max_retries := n\<rparr>) ev url w = fetch_page_attempts cfg ev url w
   \<and> fst (snd (fetch_page_attempts cfg ev url w)) \<le> 3
   \<and> fetch_page_attempts (default_config\<lparr>max_retries := 5\<rparr>) site_env ''https://x/2'' initial_world =
       (Inl (RetryError (Exn ''connection refused'')), 3,
        initial_world\<lparr>slept := [2, 2], requests_sent := 3\<rparr>)
   \<and> fetch_page_attempts (default_config\<lparr>max_retries := 5\<rparr>) (flaky_env 4) ''https://x/1'' initial_world =
       (Inl (RetryError (Exn ''timed out'')), 3,
        initial_world\<lparr>slept := [2, 2], requests_sent := 3\<rparr>)"
proof -
  have 1: "fetch_page_attempts (cfg\<lparr>max_retries := n\<rparr>) ev url w = fetch_page_attempts cfg ev url w"
    by (simp add: fetch_page_attempts_def fetch_page_attempt_max_retries)
  have 2: "fst (snd (fetch_page_attempts cfg ev url w)) \<le> 3"
    using retry_call_bound[of 1 3 "fetch_page_attempt cfg ev url" 2 w]
    by (simp add: fetch_page_attempts_def)
  show ?thesis
    by (intro conjI) (rule 1, rule 2, rule always_fails_eval, rule flaky_eval)
qed

subsection \<open>The robots.txt check\<close>

text \<open>The cache clean-up only deletes entries and logs nothing.\<close>

lemma dict_del_mem: "dict_del d k = Inr d' \<Longrightarrow> x \<in> set d' \<Longrightarrow> x \<in> set d"
proof (induction d arbitrary: d')
  case Nil
  then show ?case by simp
next
  case (Cons a d)
  obtain k' v' where a: "a = (k', v')" by (cases a)
  show ?case
  proof (cases "k' = k")
    case True
    with Cons.prems a show ?thesis by simp
  next
    case False
    with Cons.prems(1) a obtain d'' where d'': "dict_del d k = Inr d''" and d': "d' = a # d''"
      by (auto split: sum.splits)
    from Cons.prems(2) d' have "x = a \<or> x \<in> set d''" by simp
    with Cons.IH[OF d''] show ?thesis by auto
  qed
qed

lemma dict_del_keys: "dict_del d k = Inr d' \<Longrightarrow> fst ` set d' \<subseteq> fst ` set d"
  using dict_del_mem[of d k d'] by (meson image_mono subsetI)

lemma del_parser_frame:
  assumes "del_parser b w = (r, w')"
  shows "fst ` set (robots_parsers w') \<subseteq> fst ` set (robots_parsers w) \<and> logged w' = logged w"
proof (cases "dict_del (robots_parsers w) b")
  case (Inl e)
  with assms show ?thesis by (auto simp: del_parser_def)
next
  case (Inr ps)
  note keys = dict_del_keys[OF Inr]
  show ?thesis
  proof (cases "dict_del (robots_parsers_last_used w) b")
    case (Inl e)
    with Inr assms have "w' = w\<lparr>robots_parsers := ps\<rparr>" by (simp add: del_parser_def)
    with keys show ?thesis by simp
  next
    case (Inr lu)
    with \<open>dict_del (robots_parsers w) b = Inr ps\<close> assms
    have "w' = w\<lparr>robots_parsers := ps, robots_parsers_last_used := lu\<rparr>"
      by (simp add: del_parser_def)
    with keys show ?thesis by simp
  qed
qed

lemma remove_old_frame:
  "remove_old bs t w = (r, w') \<Longrightarrow>
     fst ` set (robots_parsers w') \<subseteq> fst ` set (robots_parsers w) \<and> logged w' = logged w"
proof (induction bs arbitrary: w)
  case Nil
  then show ?case by simp
next
  case (Cons b bs)
  show ?case
  proof (cases "t - (case map_of (robots_parsers_last_used w) b of None \<Rightarrow> 0 | Some t \<Rightarrow> t)
                 > robots_parsers_cache_ttl")
    case False
    with Cons show ?thesis by (simp add: Let_def)
  next
    case True
    obtain r1 w1 where d: "del_parser b w = (r1, w1)" by (cases "del_parser b w")
    note f = del_parser_frame[OF d]
    show ?thesis
    proof (cases r1)
      case (Inl e)
      with True d Cons.prems f show ?thesis by (simp add: Let_def)
    next
      case (Inr u)
      with True d Cons.prems have "remove_old bs t w1 = (r, w')" by (simp add: Let_def)
      from Cons.IH[OF this] f show ?thesis by auto
    qed
  qed
qed

lemma remove_oldest_frame:
  "remove_oldest bs w = (r, w') \<Longrightarrow>
     fst ` set (robots_parsers w') \<subseteq> fst ` set (robots_parsers w) \<and> logged w' = logged w"
proof (induction bs arbitrary: w)
  case Nil
  then show ?case by simp
next
  case (Cons b bs)
  obtain r1 w1 where d: "del_parser b w = (r1, w1)" by (cases "del_parser b w")
  note f = del_parser_frame[OF d]
  show ?case
  proof (cases r1)
    case (Inl e)
    with d Cons.prems f show ?thesis by simp
  next
    case (Inr u)
    with d Cons.prems have "remove_oldest bs w1 = (r, w')" by simp
    from Cons.IH[OF this] f show ?thesis by auto
  qed
qed

lemma cleanup_old_parsers_frame:
  assumes "cleanup_old_parsers ev w = (r, w')"
  shows "fst ` set (robots_parsers w') \<subseteq> fst ` set (robots_parsers w) \<and> logged w' = logged w"
proof (cases "length (robots_parsers w) \<le> robots_parsers_max_cache_size")
  case True
  with assms show ?thesis by (simp add: cleanup_old_parsers_def)
next
  case False
  let ?w1 = "w\<lparr>time_calls := time_calls w + 1\<rparr>"
  obtain r2 w2 where old: "remove_old (dict_keys (robots_parsers ?w1)) (time_time ev (time_calls w)) ?w1 = (r2, w2)"
    by (cases "remove_old (dict_keys (robots_parsers ?w1)) (time_time ev (time_calls w)) ?w1")
  from remove_old_frame[OF old]
  have f2: "fst ` set (robots_parsers w2) \<subseteq> fst ` set (robots_parsers w) \<and> logged w2 = logged w"
    by simp
  show ?thesis
  proof (cases r2)
    case (Inl e)
    with False old assms f2 show ?thesis
      by (simp add: cleanup_old_parsers_def Let_def)
  next
    case (Inr u)
    show ?thesis
    proof (cases "length (robots_parsers w2) > robots_parsers_max_cache_size")
      case True
      with Inr False old assms
      have "remove_oldest
                 (map fst
                    (take (length (robots_parsers w2) - robots_parsers_max_cache_size)
                       (sort_key snd (robots_parsers_last_used w2))))
                 w2 = (r, w')"
        by (simp add: cleanup_old_parsers_def Let_def)
      from remove_oldest_frame[OF this] f2 show ?thesis by auto
    next
      case False
      with Inr \<open>\<not> length (robots_parsers w) \<le> robots_parsers_max_cache_size\<close> old assms f2
      show ?thesis
        by (simp add: cleanup_old_parsers_def Let_def)
    qed
  qed
qed

lemma map_of_None_keys: "k \<notin> fst ` set d \<Longrightarrow> map_of d k = None"
  by (simp add: map_of_eq_None_iff)

lemma get_robots_parser_unreadable:
  assumes "robots_txt_open ev (base @ ''/robots.txt'') = Raises e"
    and "base \<notin> fst ` set (robots_parsers w)"
  shows "\<exists>msg e' w1 r. get_robots_parser ev base w = (r, w1) \<and> r \<in> {Inl e', Inr None}
           \<and> (r = Inr None \<longrightarrow> logged w1 = logged w @ [LogError msg e'])
           \<and> (r = Inl e' \<longrightarrow> logged w1 = logged w)"
proof -
  obtain r0 w0 where c: "cleanup_old_parsers ev w = (r0, w0)"
    by (cases "cleanup_old_parsers ev w")
  note f = cleanup_old_parsers_frame[OF c]
  show ?thesis
  proof (cases r0)
    case (Inl e0)
    with c f show ?thesis
      by (simp add: get_robots_parser_def)
  next
    case (Inr u)
    from f assms(2) have "map_of (robots_parsers w0) base = None"
      by (intro map_of_None_keys) auto
    with Inr c f assms(1) show ?thesis
      by (simp add: get_robots_parser_def logger_error_def RobotFileParser_read_def)
  qed
qed

text \<open>
  When opening the robots.txt raises and the origin has no cached parser, the check
  returns true and logs one error.
\<close>

lemma can_fetch_unreadable:
  assumes "urlparse ev url = Inr parsed"
    and "robots_txt_open ev (scheme parsed @ ''://'' @ netloc parsed @ ''/robots.txt'') = Raises e"
    and "scheme parsed @ ''://'' @ netloc parsed \<notin> fst ` set (robots_parsers w)"
  shows "fst (can_fetch ev ua url w) = Inr True
         \<and> (\<exists>msg e'. logged (snd (can_fetch ev ua url w)) = logged w @ [LogError msg e'])"
proof -
  let ?base = "scheme parsed @ ''://'' @ netloc parsed"
  from get_robots_parser_unreadable[of ev ?base e w] assms(2,3)
  obtain msg e' w1 r where g: "get_robots_parser ev ?base w = (r, w1)"
    and r: "r \<in> {Inl e', Inr None}"
    and l1: "r = Inr None \<longrightarrow> logged w1 = logged w @ [LogError msg e']"
    and l2: "r = Inl e' \<longrightarrow> logged w1 = logged w"
    by auto
  from r show ?thesis
  proof
    assume "r = Inl e'"
    with g l2 assms(1) show ?thesis
      by (simp add: can_fetch_def Let_def logger_error_def)
  next
    assume "r \<in> {Inr None}"
    with g l1 assms(1) show ?thesis
      by (auto simp: can_fetch_def Let_def)
  qed
qed

text \<open>
  When the robots.txt is opened without an exception (a body, or an HTTP error status,
  which \<^verbatim>\<open>read\<close> swallows), the origin has no cached parser and the clean-up
  completes, the check returns what the parser answers, and logs nothing unless the
  parser raises.
\<close>

lemma can_fetch_readable:
  assumes "urlparse ev url = Inr parsed"
    and "RobotFileParser_read
           (robots_txt_open ev (scheme parsed @ ''://'' @ netloc parsed @ ''/robots.txt'')) = Inr parser"
    and "scheme parsed @ ''://'' @ netloc parsed \<notin> fst ` set (robots_parsers w)"
    and "fst (cleanup_old_parsers ev w) = Inr ()"
  shows "fst (can_fetch ev ua url w) =
           Inr (case RobotFileParser_can_fetch parser ua
                       (if path parsed = [] then ''/'' else path parsed) of
                  Inl e \<Rightarrow> True | Inr allowed \<Rightarrow> allowed)
         \<and> (\<not> isl (RobotFileParser_can_fetch parser ua
                       (if path parsed = [] then ''/'' else path parsed)) \<longrightarrow>
              logged (snd (can_fetch ev ua url w)) = logged w)"
proof -
  let ?base = "scheme parsed @ ''://'' @ netloc parsed"
  obtain w0 where c: "cleanup_old_parsers ev w = (Inr (), w0)"
    using assms(4) by (cases "cleanup_old_parsers ev w") auto
  note f = cleanup_old_parsers_frame[OF c]
  from f assms(3) have "map_of (robots_parsers w0) ?base = None"
    by (intro map_of_None_keys) auto
  with c assms(1,2) f show ?thesis
    by (simp add: can_fetch_def Let_def get_robots_parser_def touch_parser_def
        split: sum.splits)
qed

text \<open>
  So an HTTP error status for the robots.txt is not failed open: 401, 403 and every
  status outside 400 to 499 make the check false, and nothing is logged.
\<close>

lemma can_fetch_http_error:
  assumes "urlparse ev url = Inr parsed"
    and "robots_txt_open ev (scheme parsed @ ''://'' @ netloc parsed @ ''/robots.txt'') =
           HTTPErrorStatus code"
    and "scheme parsed @ ''://'' @ netloc parsed \<notin> fst ` set (robots_parsers w)"
    and "fst (cleanup_old_parsers ev w) = Inr ()"
  shows "fst (can_fetch ev ua url w) =
           Inr (code \<noteq> 401 \<and> code \<noteq> 403 \<and> 400 \<le> code \<and> code < 500)
         \<and> logged (snd (can_fetch ev ua url w)) = logged w"
proof -
  let ?parser = "\<lparr>disallow_all = (code = 401 \<or> code = 403),
               allow_all = (code \<noteq> 401 \<and> code \<noteq> 403 \<and> 400 \<le> code \<and> code < 500),
               last_checked = False,
               rules = (\<lambda>useragent url. Inr True)\<rparr>"
  have r: "RobotFileParser_read
             (robots_txt_open ev (scheme parsed @ ''://'' @ netloc parsed @ ''/robots.txt'')) =
           Inr ?parser"
    unfolding assms(2) RobotFileParser_read_def by simp
  have v: "RobotFileParser_can_fetch ?parser ua (if path parsed = [] then ''/'' else path parsed) =
           Inr (code \<noteq> 401 \<and> code \<noteq> 403 \<and> 400 \<le> code \<and> code < 500)"
    by (auto simp: RobotFileParser_can_fetch_def)
  from can_fetch_readable[OF assms(1) r assms(3,4), of ua] show ?thesis
    unfolding v by simp
qed

lemma can_fetch_cached:
  assumes "urlparse ev url = Inr parsed"
    and "map_of (robots_parsers w) (scheme parsed @ ''://'' @ netloc parsed) = Some parser"
    and "length (robots_parsers w) \<le> robots_parsers_max_cache_size"
  shows "fst (can_fetch ev ua url w) =
           Inr (case RobotFileParser_can_fetch parser ua
                       (if path parsed = [] then ''/'' else path parsed) of
                  Inl e \<Rightarrow> True | Inr allowed \<Rightarrow> allowed)"
  using assms
  by (simp add: can_fetch_def Let_def get_robots_parser_def cleanup_old_parsers_def split: sum.splits)

lemma can_fetch_error:
  assumes "urlparse ev url = Inr parsed"
    and "isl (fst (get_robots_parser ev (scheme parsed @ ''://'' @ netloc parsed) w))"
  shows "fst (can_fetch ev ua url w) = Inr True"
  using assms
  by (cases "get_robots_parser ev (scheme parsed @ ''://'' @ netloc parsed) w")
     (auto simp: can_fetch_def Let_def isl_def)

text \<open>An exception of \<^verbatim>\<open>urlparse\<close> leaves the check, and nothing else has happened.\<close>

lemma can_fetch_urlparse_raises:
  "urlparse ev url = Inl e \<Longrightarrow> can_fetch ev ua url w = (Inl e, w)"
  by (simp add: can_fetch_def)

lemma can_fetch_returns:
  "urlparse ev url = Inr parsed \<Longrightarrow> \<exists>allowed. fst (can_fetch ev ua url w) = Inr allowed"
  by (cases "get_robots_parser ev (scheme parsed @ ''://'' @ netloc parsed) w")
     (auto simp: can_fetch_def Let_def split: sum.splits option.splits)

lemmas eval_robots = can_fetch_def get_robots_parser_def cleanup_old_parsers_def
  robots_parsers_max_cache_size_def touch_parser_def logger_error_def logger_warning_def
  RobotFileParser_read_def RobotFileParser_can_fetch_def

lemma site_can_fetch:
  "fst (can_fetch site_env ua ''https://x/private'' initial_world) = Inr False"
  "fst (can_fetch site_env ua ''https://x/public'' initial_world) = Inr True"
  "fst (can_fetch unreachable_env ua ''https://x/private'' initial_world) = Inr True"
  "logged (snd (can_fetch unreachable_env ua ''https://x/private'' initial_world)) =
     [LogError ''Error reading robots.txt for https://x'' (Exn ''unreachable'')]"
  by (simp_all add: eval_robots Let_def site_env_def unreachable_env_def initial_world_def
      site_urlparse_def site_robots_def)

lemma http_error_can_fetch:
  "fst (can_fetch forbidden_env ua ''https://x/public'' initial_world) = Inr False"
  "logged (snd (can_fetch forbidden_env ua ''https://x/public'' initial_world)) = []"
  "fst (can_fetch server_error_env ua ''https://x/public'' initial_world) = Inr False"
  "logged (snd (can_fetch server_error_env ua ''https://x/public'' initial_world)) = []"
  by (simp_all add: eval_robots Let_def site_env_def forbidden_env_def server_error_env_def
      initial_world_def site_urlparse_def)

lemma malformed_url_can_fetch:
  "can_fetch site_env ua ''http://[::1'' w = (Inl (ValueError ''Invalid IPv6 URL''), w)"
  by (simp add: can_fetch_def site_env_def site_urlparse_def)

text \<open>
  Claim C5 asks for true, with the failure logged, whenever the robots.txt cannot be
  retrieved or any error occurs during the check. The check does so when opening the
  robots.txt raises. It does not when the robots.txt is answered with an HTTP error
  status, which \<^verbatim>\<open>RobotFileParser.read\<close> catches itself: with status 403, and with
  status 500, the check is false for a path that no rule disallows, and nothing is
  logged. Nor does it when \<^verbatim>\<open>urlparse\<close> raises on the URL: the exception leaves
  \<^verbatim>\<open>can_fetch\<close>. With a robots.txt that can be read and disallows \<open>/private\<close>, the
  check is false for \<open>https://x/private\<close> and true for \<open>https://x/public\<close>.
\<close>

theorem can_fetch_not_always_fail_open:
  "fst (can_fetch forbidden_env ua ''https://x/public'' initial_world) = Inr False
   \<and> logged (snd (can_fetch forbidden_env ua ''https://x/public'' initial_world)) = []
   \<and> fst (can_fetch server_error_env ua ''https://x/public'' initial_world) = Inr False
   \<and> logged (snd (can_fetch server_error_env ua ''https://x/public'' initial_world)) = []
   \<and> can_fetch site_env ua ''http://[::1'' w = (Inl (ValueError ''Invalid IPv6 URL''), w)
   \<and> fst (can_fetch unreachable_env ua ''https://x/private'' initial_world) = Inr True
   \<and> logged (snd (can_fetch unreachable_env ua ''https://x/private'' initial_world)) =
       [LogError ''Error reading robots.txt for https://x'' (Exn ''unreachable'')]
   \<and> fst (can_fetch site_env ua ''https://x/private'' initial_world) = Inr False
   \<and> fst (can_fetch site_env ua ''https://x/public'' initial_world) = Inr True"
  by (intro conjI)
     (rule http_error_can_fetch(1), rule http_error_can_fetch(2), rule http_error_can_fetch(3),
      rule http_error_can_fetch(4), rule malformed_url_can_fetch, rule site_can_fetch(3),
      rule site_can_fetch(4), rule site_can_fetch(1), rule site_can_fetch(2))

subsection \<open>Scraping one URL\<close>

lemma site_init:
  "Scraper_init site_registry default_config ''requests'' None initial_world =
     (Inr site_scraper, site_world)"
proof -
  have "engine default_config = ''requests''" and "respect_robots_txt default_config"
    by (simp_all add: default_config_def)
  then show ?thesis
    by (simp add: Scraper_init_def Let_def site_registry_def get_engine_def site_scraper_def
        site_world_def RequestsEngine_def RequestsEngine_init_def initial_world_def)
qed

text \<open>
  A robots.txt denial, an exception of the engine, a fetch that fails and an extraction
  that raises all make the scrape of one URL return the empty record.
\<close>

lemma Scraper_scrape_robots_denied:
  assumes "robots_checker self = Some ua" and "fst (can_fetch ev ua url w) = Inr False"
  shows "fst (Scraper_scrape self ev url sch w) = Inr []"
  using assms by (cases "can_fetch ev ua url w") (simp add: Scraper_scrape_def)

lemma Scraper_scrape_engine_raises:
  assumes "robots_checker self = None"
    and "fst (scraper_engine self url sch
                (if request_delay (config_object w) > 0
                 then time_sleep (request_delay (config_object w)) w else w)) = Inl e"
  shows "fst (Scraper_scrape self ev url sch w) = Inr []"
  using assms
  by (cases "scraper_engine self url sch
                (if request_delay (config_object w) > 0
                 then time_sleep (request_delay (config_object w)) w else w)")
     (simp add: Scraper_scrape_def Let_def)

lemma RequestsEngine_scrape_fetch_fails:
  "fst (fetch_page cfg ev url w) = Inl e \<Longrightarrow> fst (RequestsEngine_scrape cfg ev url sch w) = []"
  by (cases "fetch_page cfg ev url w") (simp add: RequestsEngine_scrape_def)

lemma RequestsEngine_scrape_extraction_raises:
  assumes "fetch_page cfg ev url w = (Inr html, w1)"
    and "fst (extract_data (BeautifulSoup ev html) sch (logged w1)) = Inl e"
  shows "fst (RequestsEngine_scrape cfg ev url sch w) = []"
  using assms
  by (cases "extract_data (BeautifulSoup ev html) sch (logged w1)")
     (simp add: RequestsEngine_scrape_def)

text \<open>
  The scrape of one URL returns a record, possibly empty, unless the robots check
  raises, which it does exactly when \<^verbatim>\<open>urlparse\<close> raises on the URL.
\<close>

lemma Scraper_scrape_returns:
  assumes "robots_checker self = None \<or> \<not> isl (urlparse ev url)"
  shows "\<not> isl (fst (Scraper_scrape self ev url sch w))"
proof (cases "robots_checker self")
  case None
  then show ?thesis
    by (simp add: Scraper_scrape_def Let_def split: prod.splits sum.splits)
next
  case (Some ua)
  with assms obtain parsed where "urlparse ev url = Inr parsed"
    by (cases "urlparse ev url") auto
  from can_fetch_returns[OF this, of ua w]
  obtain allowed where "fst (can_fetch ev ua url w) = Inr allowed" ..
  then show ?thesis
    using Some
    by (cases "can_fetch ev ua url w")
       (simp add: Scraper_scrape_def Let_def split: prod.splits sum.splits)
qed

lemma Scraper_scrape_urlparse_raises:
  assumes "robots_checker self = Some ua" and "urlparse ev url = Inl e"
  shows "Scraper_scrape self ev url sch w = (Inl e, w)"
  using assms by (simp add: Scraper_scrape_def can_fetch_urlparse_raises)

subsection \<open>Scraping several URLs\<close>

text \<open>
  When the loop returns a list, every URL was scraped, and the list holds (with the URL
  added) the non-empty records among what the scrapes returned.
\<close>

lemma scrape_multiple_loop_each:
  "fst (scrape_multiple_loop self ev urls sch results w) = Inr records \<Longrightarrow>
     records = results @ map (\<lambda>(url, result). dict_set result ''url'' (PyStr url))
                 (filter (\<lambda>(url, result). result \<noteq> []) (scrape_each self ev urls sch w))
     \<and> map fst (scrape_each self ev urls sch w) = urls"
proof (induction urls arbitrary: results w)
  case Nil
  then show ?case by simp
next
  case (Cons url urls)
  obtain r w1 where s: "Scraper_scrape self ev url sch w = (r, w1)"
    by (cases "Scraper_scrape self ev url sch w")
  show ?case
  proof (cases r)
    case (Inl e)
    with s Cons.prems show ?thesis by simp
  next
    case (Inr result)
    show ?thesis
    proof (cases "result = []")
      case True
      with s Inr Cons.prems
      have "fst (scrape_multiple_loop self ev urls sch results w1) = Inr records" by simp
      from Cons.IH[OF this] s Inr True show ?thesis by simp
    next
      case False
      with s Inr Cons.prems
      have "fst (scrape_multiple_loop self ev urls sch
                   (results @ [dict_set result ''url'' (PyStr url)]) w1) = Inr records"
        by simp
      from Cons.IH[OF this] s Inr False show ?thesis by simp
    qed
  qed
qed

text \<open>The loop raises exactly when the scrape of one of the URLs does.\<close>

lemma scrape_multiple_loop_returns:
  assumes "\<And>url w. url \<in> set urls \<Longrightarrow> \<not> isl (fst (Scraper_scrape self ev url sch w))"
  shows "\<not> isl (fst (scrape_multiple_loop self ev urls sch results w))"
  using assms
proof (induction urls arbitrary: results w)
  case Nil
  then show ?case by simp
next
  case (Cons url urls)
  obtain r w1 where s: "Scraper_scrape self ev url sch w = (r, w1)"
    by (cases "Scraper_scrape self ev url sch w")
  from Cons.prems[of url w] s obtain result where r: "r = Inr result"
    by (cases r) auto
  have "\<not> isl (fst (scrape_multiple_loop self ev urls sch results' w1))" for results'
    by (rule Cons.IH) (simp add: Cons.prems)
  with s r show ?case by simp
qed

text \<open>
  So a job none of whose URLs makes \<^verbatim>\<open>urlparse\<close> raise (or one of a scraper that
  does not check the robots.txt) scrapes every URL and returns the non-empty records.
\<close>

lemma scrape_multiple_isolation:
  assumes "robots_checker self = None \<or> (\<forall>url \<in> set urls. \<not> isl (urlparse ev url))"
  shows "map fst (scrape_each self ev urls sch w) = urls
         \<and> fst (scrape_multiple self ev urls sch w) =
             Inr (map (\<lambda>(url, result). dict_set result ''url'' (PyStr url))
                    (filter (\<lambda>(url, result). result \<noteq> []) (scrape_each self ev urls sch w)))"
proof -
  have "\<not> isl (fst (scrape_multiple_loop self ev urls sch [] w))"
    by (rule scrape_multiple_loop_returns, rule Scraper_scrape_returns) (use assms in auto)
  then obtain records where r: "fst (scrape_multiple_loop self ev urls sch [] w) = Inr records"
    by (cases "fst (scrape_multiple_loop self ev urls sch [] w)") auto
  from scrape_multiple_loop_each[OF r] r show ?thesis
    by (simp add: scrape_multiple_def)
qed

lemmas eval_scrape = scrape_multiple_def Scraper_scrape_def site_scraper_def RequestsEngine_def
  RequestsEngine_scrape_def fetch_page_def eval_fetch retry_call.simps eval_robots
  site_world_def RequestsEngine_init_def dict_update_def
  default_config_def site_env_def initial_world_def site_urlparse_def site_robots_def
  extract_data_def scenario_soup_def h1_tag_def a_tag_def
  element_value_def get_text_strip_def strip_def lstrip_def rstrip_def isspace_def tag_get_def
  Let_def

lemma site_scrape_multiple:
  "fst (scrape_multiple site_scraper site_env [''https://x/1'', ''https://x/2'', ''https://x/3'']
          scenario_schema site_world) =
     Inr [[(''title'', PyStr ''Hi''), (''links'', PyList [PyStr ''/a'', PyStr ''/b'']),
           (''url'', PyStr ''https://x/1'')],
          [(''title'', PyStr ''Hi''), (''links'', PyList [PyStr ''/a'', PyStr ''/b'']),
           (''url'', PyStr ''https://x/3'')]]"
  by (simp add: eval_scrape scenario_schema_def)

lemma site_scrape_multiple_one:
  "fst (scrape_multiple site_scraper site_env [''https://x/1''] scenario_schema site_world) =
     Inr [[(''title'', PyStr ''Hi''), (''links'', PyList [PyStr ''/a'', PyStr ''/b'']),
           (''url'', PyStr ''https://x/1'')]]"
  by (simp add: eval_scrape scenario_schema_def)

lemma site_scrape_multiple_malformed:
  "scrape_multiple site_scraper site_env [''http://[::1'', ''https://x/1''] sch w =
     (Inl (ValueError ''Invalid IPv6 URL''), w)"
proof -
  have "Scraper_scrape site_scraper site_env ''http://[::1'' sch w =
          (Inl (ValueError ''Invalid IPv6 URL''), w)"
    by (rule Scraper_scrape_urlparse_raises[where ua = "user_agent default_config"])
       (simp_all add: site_scraper_def site_env_def site_urlparse_def)
  then show ?thesis by (simp add: scrape_multiple_def)
qed

lemma dict_set_nonempty: "dict_set d k v \<noteq> []"
  by (cases d) (auto split: if_splits)

text \<open>
  Claim C6 asks that the failure of one URL never stops the job. A fetch that fails
  after its retries does not: of three URLs whose second can never be fetched, the
  records of the first and the third are returned. But \<^verbatim>\<open>Scraper.scrape\<close> calls the
  robots check outside its \<^verbatim>\<open>try\<close>, and the robots check calls \<^verbatim>\<open>urlparse\<close> outside
  its own: on the list of \<open>http://[::1\<close> and \<open>https://x/1\<close> the job ends with the
  ValueError of the first URL, in the state it started in, so the second URL, whose
  scrape alone yields a record, is never processed and no list is returned.
\<close>

theorem scrape_multiple_stops_at_malformed_url:
  "scrape_multiple site_scraper site_env [''http://[::1'', ''https://x/1''] scenario_schema site_world =
     (Inl (ValueError ''Invalid IPv6 URL''), site_world)
   \<and> scrape_each site_scraper site_env [''http://[::1'', ''https://x/1''] scenario_schema site_world = []
   \<and> fst (scrape_multiple site_scraper site_env [''https://x/1''] scenario_schema site_world) =
       Inr [[(''title'', PyStr ''Hi''), (''links'', PyList [PyStr ''/a'', PyStr ''/b'']),
             (''url'', PyStr ''https://x/1'')]]
   \<and> fst (fetch_page default_config site_env ''https://x/2'' w) =
       Inl (RetryError (Exn ''connection refused''))
   \<and> fst (scrape_multiple site_scraper site_env [''https://x/1'', ''https://x/2'', ''https://x/3'']
            scenario_schema site_world) =
       Inr [[(''title'', PyStr ''Hi''), (''links'', PyList [PyStr ''/a'', PyStr ''/b'']),
             (''url'', PyStr ''https://x/1'')],
            [(''title'', PyStr ''Hi''), (''links'', PyList [PyStr ''/a'', PyStr ''/b'']),
             (''url'', PyStr ''https://x/3'')]]"
proof -
  have "Scraper_scrape site_scraper site_env ''http://[::1'' scenario_schema site_world =
          (Inl (ValueError ''Invalid IPv6 URL''), site_world)"
    by (rule Scraper_scrape_urlparse_raises[where ua = "user_agent default_config"])
       (simp_all add: site_scraper_def site_env_def site_urlparse_def)
  then have 2: "scrape_each site_scraper site_env [''http://[::1'', ''https://x/1'']
                  scenario_schema site_world = []"
    by simp
  show ?thesis
    by (intro conjI) (rule site_scrape_multiple_malformed, rule 2, rule site_scrape_multiple_one,
        rule site_fetch_2, rule site_scrape_multiple)
qed

text \<open>
  Claim C10. Every record of a list returned by \<^verbatim>\<open>scrape_multiple\<close> is non-empty and
  comes from a URL of the list whose scrape returned a non-empty record: under the key
  \<^verbatim>\<open>url\<close> it holds that URL (whatever the scrape had extracted under that key) and
  under every other key what the scrape returned. Every URL of the list was scraped, and
  there are as many records as there are URLs with a non-empty scrape, so an empty
  scrape contributes nothing. A list is returned whenever \<^verbatim>\<open>urlparse\<close> raises on no
  URL of the list, or the scraper does not check the robots.txt.
\<close>

theorem scrape_multiple_records:
  "(\<forall>records. fst (scrape_multiple self ev urls sch w) = Inr records \<longrightarrow>
      (\<forall>r \<in> set records.
         r \<noteq> [] \<and>
         (\<exists>url result. url \<in> set urls \<and> (url, result) \<in> set (scrape_each self ev urls sch w)
            \<and> result \<noteq> []
            \<and> map_of r ''url'' = Some (PyStr url)
            \<and> (\<forall>k. k \<noteq> ''url'' \<longrightarrow> map_of r k = map_of result k)))
      \<and> map fst (scrape_each self ev urls sch w) = urls
      \<and> length records =
          length (filter (\<lambda>(url, result). result \<noteq> []) (scrape_each self ev urls sch w)))
   \<and> (robots_checker self = None \<or> (\<forall>url \<in> set urls. \<not> isl (urlparse ev url)) \<longrightarrow>
        (\<exists>records. fst (scrape_multiple self ev urls sch w) = Inr records))"
proof (intro conjI allI impI)
  fix records
  assume ret: "fst (scrape_multiple self ev urls sch w) = Inr records"
  let ?each = "scrape_each self ev urls sch w"
  from ret have "fst (scrape_multiple_loop self ev urls sch [] w) = Inr records"
    by (simp add: scrape_multiple_def)
  from scrape_multiple_loop_each[OF this]
  have eq: "records = map (\<lambda>(url, result). dict_set result ''url'' (PyStr url))
                        (filter (\<lambda>(url, result). result \<noteq> []) ?each)"
    and urls: "map fst ?each = urls"
    by simp_all
  have "r \<noteq> [] \<and>
      (\<exists>url result. url \<in> set urls \<and> (url, result) \<in> set ?each \<and> result \<noteq> []
         \<and> map_of r ''url'' = Some (PyStr url)
         \<and> (\<forall>k. k \<noteq> ''url'' \<longrightarrow> map_of r k = map_of result k))"
    if "r \<in> set records" for r
  proof -
    from that eq obtain url result where in_each: "(url, result) \<in> set ?each"
      and ne: "result \<noteq> []" and r: "r = dict_set result ''url'' (PyStr url)"
      by auto
    from in_each have "url \<in> set (map fst ?each)" by force
    then have "url \<in> set urls" by (simp add: urls)
    with in_each ne r show ?thesis
      by (auto simp: map_of_dict_set dict_set_nonempty)
  qed
  then show "\<forall>r \<in> set records.
        r \<noteq> [] \<and>
        (\<exists>url result. url \<in> set urls \<and> (url, result) \<in> set ?each
           \<and> result \<noteq> []
           \<and> map_of r ''url'' = Some (PyStr url)
           \<and> (\<forall>k. k \<noteq> ''url'' \<longrightarrow> map_of r k = map_of result k))"
    by blast
  show "map fst ?each = urls" by (rule urls)
  show "length records = length (filter (\<lambda>(url, result). result \<noteq> []) ?each)"
    by (simp add: eq)
next
  assume "robots_checker self = None \<or> (\<forall>url \<in> set urls. \<not> isl (urlparse ev url))"
  from scrape_multiple_isolation[OF this, of sch w]
  show "\<exists>records. fst (scrape_multiple self ev urls sch w) = Inr records"
    by blast
qed

text \<open>
  With a schema whose only field is named \<^verbatim>\<open>url\<close>, the record of the first URL holds
  the URL and not the extracted title; the second URL cannot be fetched and has no
  record. \<^verbatim>\<open>urlparse\<close> raises on neither URL.
\<close>

theorem scrape_multiple_records_witness:
  "\<not> isl (urlparse site_env ''https://x/1'') \<and> \<not> isl (urlparse site_env ''https://x/2'')
   \<and> fst (scrape_multiple site_scraper site_env [''https://x/1'', ''https://x/2''] url_schema site_world) =
     Inr [[(''url'', PyStr ''https://x/1'')]]
   \<and> (\<exists>url result. url \<in> set [''https://x/1'', ''https://x/2'']
         \<and> (url, result) \<in> set (scrape_each site_scraper site_env [''https://x/1'', ''https://x/2'']
                                  url_schema site_world)
         \<and> result \<noteq> []
         \<and> map_of [(''url'', PyStr ''https://x/1'')] ''url'' = Some (PyStr url))"
proof -
  let ?urls = "[''https://x/1'', ''https://x/2'']"
  let ?r = "[(''url'', PyStr ''https://x/1'')]"
  let ?each = "scrape_each site_scraper site_env ?urls url_schema site_world"
  have p1: "\<not> isl (urlparse site_env ''https://x/1'')"
    and p2: "\<not> isl (urlparse site_env ''https://x/2'')"
    by (simp_all add: site_env_def site_urlparse_def)
  then have parses: "\<forall>url \<in> set ?urls. \<not> isl (urlparse site_env url)"
    by simp
  have ev: "fst (scrape_multiple site_scraper site_env ?urls url_schema site_world) = Inr [?r]"
    by (simp add: eval_scrape url_schema_def)
  have mem: "?r \<in> set [?r]"
    by simp
  note inst = scrape_multiple_records[of site_scraper site_env ?urls url_schema site_world]
  from conjunct2[OF inst] parses
  have "\<exists>records. fst (scrape_multiple site_scraper site_env ?urls url_schema site_world) =
          Inr records"
    by (rule mp[OF _ disjI2])
  from conjunct1[OF inst]
  have "fst (scrape_multiple site_scraper site_env ?urls url_schema site_world) = Inr [?r] \<longrightarrow>
     (\<forall>r \<in> set [?r].
        r \<noteq> [] \<and>
        (\<exists>url result. url \<in> set ?urls \<and> (url, result) \<in> set ?each
           \<and> result \<noteq> []
           \<and> map_of r ''url'' = Some (PyStr url)
           \<and> (\<forall>k. k \<noteq> ''url'' \<longrightarrow> map_of r k = map_of result k)))
     \<and> map fst ?each = ?urls
     \<and> length [?r] = length (filter (\<lambda>(url, result). result \<noteq> []) ?each)"
    by (rule spec)
  from mp[OF this ev]
  have ball: "\<forall>r \<in> set [?r].
        r \<noteq> [] \<and>
        (\<exists>url result. url \<in> set ?urls \<and> (url, result) \<in> set ?each
           \<and> result \<noteq> []
           \<and> map_of r ''url'' = Some (PyStr url)
           \<and> (\<forall>k. k \<noteq> ''url'' \<longrightarrow> map_of r k = map_of result k))"
    by (rule conjunct1)
  from bspec[OF ball mem]
  have "\<exists>url result. url \<in> set ?urls
         \<and> (url, result) \<in> set ?each
         \<and> result \<noteq> []
         \<and> map_of ?r ''url'' = Some (PyStr url)
         \<and> (\<forall>k. k \<noteq> ''url'' \<longrightarrow> map_of ?r k = map_of result k)"
    by (rule conjunct2)
  then obtain url result where "url \<in> set ?urls"
    and "(url, result) \<in> set ?each"
    and "result \<noteq> []" and "map_of ?r ''url'' = Some (PyStr url)"
    by iprover
  then have ex: "\<exists>url result. url \<in> set ?urls
         \<and> (url, result) \<in> set ?each
         \<and> result \<noteq> []
         \<and> map_of ?r ''url'' = Some (PyStr url)"
    by iprover
  show ?thesis
    by (intro conjI) (rule p1, rule p2, rule ev, rule ex)
qed

subsection \<open>Proxy selection\<close>

lemma load_proxies_nonempty:
  assumes "load_proxies ev file_path w = (pool, w1)" and "pool \<noteq> []"
  shows "proxies_cache w1 = Some pool \<and> current_proxy_index w1 = current_proxy_index w
         \<and> logged w1 = logged w"
  using assms
  by (auto simp: load_proxies_def logger_warning_def logger_error_def Let_def
      split: option.splits sum.splits if_splits)

lemma load_proxies_cached:
  "proxies_cache w = Some pool \<Longrightarrow> load_proxies ev file_path w = (pool, w)"
  by (simp add: load_proxies_def)

lemma get_proxy_round_robin:
  assumes "fst (load_proxies ev file_path w) = pool" and "pool \<noteq> []"
    and "current_proxy_index w < length pool"
  shows "fst (get_proxy ev file_path ''round-robin'' w) = Inr (Some (pool ! current_proxy_index w))
         \<and> proxies_cache (snd (get_proxy ev file_path ''round-robin'' w)) = Some pool
         \<and> current_proxy_index (snd (get_proxy ev file_path ''round-robin'' w)) =
             (current_proxy_index w + 1) mod length pool"
proof -
  obtain w1 where l: "load_proxies ev file_path w = (pool, w1)"
    using assms(1) by (cases "load_proxies ev file_path w") auto
  from load_proxies_nonempty[OF l assms(2)] l assms(2,3) show ?thesis
    by (simp add: get_proxy_def)
qed

lemma get_proxy_times_round_robin:
  assumes "fst (load_proxies ev file_path w) = pool" and "pool \<noteq> []"
    and "current_proxy_index w < length pool"
  shows "fst (get_proxy_times k ev file_path ''round-robin'' w) =
           map (\<lambda>i. Inr (Some (pool ! ((current_proxy_index w + i) mod length pool)))) [0..<k]
         \<and> current_proxy_index (snd (get_proxy_times k ev file_path ''round-robin'' w)) =
             (current_proxy_index w + k) mod length pool"
  using assms
proof (induction k arbitrary: w)
  case 0
  then show ?case by simp
next
  case (Suc k)
  obtain r w1 where g: "get_proxy ev file_path ''round-robin'' w = (r, w1)"
    by (cases "get_proxy ev file_path ''round-robin'' w")
  from get_proxy_round_robin[OF Suc.prems] g
  have r: "r = Inr (Some (pool ! current_proxy_index w))"
    and cache: "proxies_cache w1 = Some pool"
    and idx: "current_proxy_index w1 = (current_proxy_index w + 1) mod length pool"
    by simp_all
  from cache have l1: "fst (load_proxies ev file_path w1) = pool"
    by (simp add: load_proxies_cached)
  from idx Suc.prems(2) have lt: "current_proxy_index w1 < length pool" by simp
  note ih = Suc.IH[OF l1 Suc.prems(2) lt]
  have shift: "(current_proxy_index w1 + i) mod length pool =
               (current_proxy_index w + Suc i) mod length pool" for i
    by (simp add: idx mod_add_left_eq)
  have "fst (get_proxy_times (Suc k) ev file_path ''round-robin'' w) =
          r # fst (get_proxy_times k ev file_path ''round-robin'' w1)"
    by (simp add: g split: prod.splits)
  also have "\<dots> = map (\<lambda>i. Inr (Some (pool ! ((current_proxy_index w + i) mod length pool))))
                    [0..<Suc k]"
    using ih r Suc.prems(3) by (simp add: shift map_upt_Suc del: upt_Suc)
  finally have 1: "fst (get_proxy_times (Suc k) ev file_path ''round-robin'' w) =
      map (\<lambda>i. Inr (Some (pool ! ((current_proxy_index w + i) mod length pool)))) [0..<Suc k]" .
  have "current_proxy_index (snd (get_proxy_times (Suc k) ev file_path ''round-robin'' w)) =
          current_proxy_index (snd (get_proxy_times k ev file_path ''round-robin'' w1))"
    by (simp add: g split: prod.splits)
  also have "\<dots> = (current_proxy_index w + Suc k) mod length pool"
    using ih by (simp add: idx mod_add_left_eq)
  finally show ?case using 1 by blast
qed

lemma rotate_as_map:
  "rotate m xs = map (\<lambda>i. xs ! ((m + i) mod length xs)) [0..<length xs]"
  by (rule nth_equalityI) (simp_all add: nth_rotate)

lemma get_proxy_unknown_policy:
  assumes "fst (load_proxies ev file_path w) = pool" and "pool \<noteq> []"
    and "policy \<noteq> ''random''" and "policy \<noteq> ''round-robin''"
  shows "(\<exists>proxy \<in> set pool. fst (get_proxy ev file_path policy w) = Inr (Some proxy))
         \<and> logged (snd (get_proxy ev file_path policy w)) =
             logged w @ [LogWarning (''Unknown proxy rotation policy: '' @ policy)]"
proof -
  obtain w1 where l: "load_proxies ev file_path w = (pool, w1)"
    using assms(1) by (cases "load_proxies ev file_path w") auto
  from load_proxies_nonempty[OF l assms(2)] l assms(2,3,4) show ?thesis
    by (simp add: get_proxy_def random_choice_def logger_warning_def)
qed

lemma get_proxy_random:
  assumes "fst (load_proxies ev file_path w) = pool" and "pool \<noteq> []"
  shows "\<exists>proxy \<in> set pool. fst (get_proxy ev file_path ''random'' w) = Inr (Some proxy)"
proof -
  obtain w1 where l: "load_proxies ev file_path w = (pool, w1)"
    using assms(1) by (cases "load_proxies ev file_path w") auto
  from l assms(2) show ?thesis
    by (simp add: get_proxy_def random_choice_def)
qed

lemma get_proxy_empty:
  "fst (load_proxies ev file_path w) = [] \<Longrightarrow> fst (get_proxy ev file_path policy w) = Inr None"
  by (cases "load_proxies ev file_path w") (simp add: get_proxy_def)


lemma mset_rotate1_eq: "mset (rotate1 xs) = mset xs"
  by (cases xs) simp_all

lemma mset_rotate_eq: "mset (rotate n xs) = mset xs"
  by (induction n) (simp_all add: mset_rotate1_eq)

text \<open>
  Let the pool (the cached list, or the stripped non-blank lines of the file on first
  use) be non-empty, of \<open>N\<close> entries, and the cursor below \<open>N\<close>. Then \<open>N\<close>
  consecutive round-robin selections return the pool rotated by the cursor, so each
  entry once, and the cursor is back where it was. A selection with an unknown policy
  returns an entry of the pool and logs a warning.
\<close>

lemma get_proxy_times_rotation:
  assumes "fst (load_proxies ev file_path w) = pool" and "pool \<noteq> []"
    and "current_proxy_index w < length pool"
  shows "fst (get_proxy_times (length pool) ev file_path ''round-robin'' w) =
           map (\<lambda>proxy. Inr (Some proxy)) (rotate (current_proxy_index w) pool)
         \<and> mset (fst (get_proxy_times (length pool) ev file_path ''round-robin'' w)) =
             mset (map (\<lambda>proxy. Inr (Some proxy)) pool)
         \<and> current_proxy_index (snd (get_proxy_times (length pool) ev file_path ''round-robin'' w)) =
             current_proxy_index w"
proof -
  note times = get_proxy_times_round_robin[OF assms, of "length pool"]
  have 1: "fst (get_proxy_times (length pool) ev file_path ''round-robin'' w) =
           map (\<lambda>proxy. Inr (Some proxy)) (rotate (current_proxy_index w) pool)"
    using times by (simp add: rotate_as_map)
  have 2: "mset (fst (get_proxy_times (length pool) ev file_path ''round-robin'' w)) =
             mset (map (\<lambda>proxy. Inr (Some proxy)) pool)"
    unfolding 1 by (simp add: mset_rotate_eq)
  have 3: "current_proxy_index (snd (get_proxy_times (length pool) ev file_path ''round-robin'' w)) =
             current_proxy_index w"
    using times assms(3) by simp
  from 1 2 3 show ?thesis by blast
qed

text \<open>
  The cursor is below the size of the pool in a new process, and a round-robin
  selection leaves it there. But \<^verbatim>\<open>remove_proxy\<close> shortens the pool and leaves the
  cursor as it is: with the cursor at or above the size of a non-empty pool, the
  round-robin selection indexes the list out of range.
\<close>

lemma get_proxy_stale_cursor:
  assumes "proxies_cache w = Some pool" and "pool \<noteq> []"
    and "length pool \<le> current_proxy_index w"
  shows "get_proxy ev file_path ''round-robin'' w = (Inl IndexError, w)"
  using assms by (simp add: get_proxy_def load_proxies_cached)

lemma remove_proxy_cursor:
  "current_proxy_index (remove_proxy ev file_path proxy w) = current_proxy_index w"
  by (simp add: remove_proxy_def load_proxies_def logger_warning_def logger_error_def Let_def
      split: option.splits sum.splits prod.splits)

lemmas eval_proxy = get_proxy_def load_proxies_def remove_proxy_def three_proxies_env_def
  site_env_def initial_world_def stripped_lines_def strip_def lstrip_def rstrip_def isspace_def
  logger_warning_def logger_error_def Let_def

lemma three_proxies_twice:
  "get_proxy_times 2 three_proxies_env ''./config/proxies.txt'' ''round-robin'' initial_world =
     ([Inr (Some ''http://p1:8080''), Inr (Some ''http://p2:8080'')],
      initial_world\<lparr>proxies_cache := Some [''http://p1:8080'', ''http://p2:8080'', ''http://p3:8080''],
                    current_proxy_index := 2\<rparr>)"
  by (simp add: numeral_2_eq_2 eval_proxy)

lemma stale_cursor_world_eval:
  "stale_cursor_world =
     initial_world\<lparr>proxies_cache := Some [''http://p1:8080'', ''http://p2:8080''],
                   current_proxy_index := 2,
                   files_written := [(''./config/proxies.txt'',
                                      [''http://p1:8080'' @ [CHR 0x0A], ''http://p2:8080'' @ [CHR 0x0A]])]\<rparr>"
  unfolding stale_cursor_world_def three_proxies_twice
  by (simp add: eval_proxy)

lemma stale_cursor_get_proxy:
  "fst (get_proxy three_proxies_env ''./config/proxies.txt'' ''round-robin'' stale_cursor_world) =
     Inl IndexError"
  unfolding stale_cursor_world_eval by (simp add: get_proxy_def load_proxies_def)

lemma stale_cursor_get_proxy_times:
  "fst (get_proxy_times 2 three_proxies_env ''./config/proxies.txt'' ''round-robin''
          stale_cursor_world) = [Inl IndexError, Inl IndexError]"
  unfolding stale_cursor_world_eval by (simp add: numeral_2_eq_2 get_proxy_def load_proxies_def)

lemma two_proxies_twice:
  "fst (get_proxy_times 2 proxies_env ''./config/proxies.txt'' ''round-robin'' initial_world) =
     [Inr (Some ''http://p1:8080''), Inr (Some ''http://p2:8080'')]"
  by (simp add: numeral_2_eq_2 eval_proxy proxies_env_def)

lemma site_unknown_policy:
  "fst (get_proxy proxies_env ''./config/proxies.txt'' ''sticky'' initial_world) =
     Inr (Some ''http://p1:8080'')"
  "logged (snd (get_proxy proxies_env ''./config/proxies.txt'' ''sticky'' initial_world)) =
     [LogWarning ''Unknown proxy rotation policy: sticky'']"
  "fst (get_proxy site_env ''./config/proxies.txt'' ''round-robin'' initial_world) = Inr None"
  by (simp_all add: eval_proxy proxies_env_def random_choice_def)

text \<open>
  Claim C7 asks, of every non-empty pool of \<open>N\<close> entries, that \<open>N\<close> consecutive
  round-robin selections return each entry once. In a new process they do: with the
  file of two entries, two selections return the first entry and then the second; a
  selection with the unknown policy \<open>sticky\<close> returns an entry and logs a warning, and a
  selection without a proxy file returns None. But after two selections from a file of
  three entries and the removal of the third entry, the pool has two entries and the
  cursor is 2: the next round-robin selection raises IndexError, and so does the one
  after it, instead of returning the two entries.
\<close>

theorem round_robin_fails_after_remove_proxy:
  "fst (get_proxy_times 2 three_proxies_env ''./config/proxies.txt'' ''round-robin'' initial_world) =
     [Inr (Some ''http://p1:8080''), Inr (Some ''http://p2:8080'')]
   \<and> stale_cursor_world =
       remove_proxy three_proxies_env ''./config/proxies.txt'' ''http://p3:8080''
         (snd (get_proxy_times 2 three_proxies_env ''./config/proxies.txt'' ''round-robin''
                 initial_world))
   \<and> proxies_cache stale_cursor_world = Some [''http://p1:8080'', ''http://p2:8080'']
   \<and> current_proxy_index stale_cursor_world = 2
   \<and> fst (get_proxy three_proxies_env ''./config/proxies.txt'' ''round-robin'' stale_cursor_world) =
       Inl IndexError
   \<and> fst (get_proxy_times 2 three_proxies_env ''./config/proxies.txt'' ''round-robin''
            stale_cursor_world) = [Inl IndexError, Inl IndexError]
   \<and> fst (get_proxy_times 2 proxies_env ''./config/proxies.txt'' ''round-robin'' initial_world) =
       [Inr (Some ''http://p1:8080''), Inr (Some ''http://p2:8080'')]
   \<and> fst (get_proxy proxies_env ''./config/proxies.txt'' ''sticky'' initial_world) =
       Inr (Some ''http://p1:8080'')
   \<and> logged (snd (get_proxy proxies_env ''./config/proxies.txt'' ''sticky'' initial_world)) =
       [LogWarning ''Unknown proxy rotation policy: sticky'']
   \<and> fst (get_proxy site_env ''./config/proxies.txt'' ''round-robin'' initial_world) = Inr None"
proof -
  have 1: "fst (get_proxy_times 2 three_proxies_env ''./config/proxies.txt'' ''round-robin''
                  initial_world) =
           [Inr (Some ''http://p1:8080''), Inr (Some ''http://p2:8080'')]"
    unfolding three_proxies_twice by simp
  have 3: "proxies_cache stale_cursor_world = Some [''http://p1:8080'', ''http://p2:8080'']"
    unfolding stale_cursor_world_eval by simp
  have 4: "current_proxy_index stale_cursor_world = 2"
    unfolding stale_cursor_world_eval by simp
  show ?thesis
    by (intro conjI) (rule 1, rule stale_cursor_world_def, rule 3, rule 4,
        rule stale_cursor_get_proxy, rule stale_cursor_get_proxy_times, rule two_proxies_twice,
        rule site_unknown_policy(1), rule site_unknown_policy(2), rule site_unknown_policy(3))
qed

subsection \<open>CSV export\<close>

lemma remdups_append_mem: "k \<in> set ys \<Longrightarrow> remdups (xs @ k # ys) = remdups (xs @ ys)"
  by (induction xs) auto

lemma remdups_append_remdups: "remdups (xs @ remdups ys) = remdups (xs @ ys)"
  by (induction xs) auto

lemma first_seen_distinct: "distinct xs \<Longrightarrow> first_seen xs = xs"
  by (simp add: first_seen_def distinct_remdups_id)

lemma first_seen_mem: "k \<in> set fn \<Longrightarrow> first_seen (fn @ k # ks) = first_seen (fn @ ks)"
  by (simp add: first_seen_def remdups_append_mem)

lemma first_seen_append: "first_seen (first_seen xs @ ys) = first_seen (xs @ ys)"
  by (simp add: first_seen_def remdups_append_remdups)

lemma set_first_seen: "set (first_seen xs) = set xs"
  by (simp add: first_seen_def)

lemma distinct_first_seen: "distinct (first_seen xs)"
  by (simp add: first_seen_def)

lemma remdups_snoc: "remdups (ys @ [x]) = remdups (filter (\<lambda>y. y \<noteq> x) ys) @ [x]"
  by (induction ys) auto

lemma first_seen_Cons: "first_seen (x # xs) = x # first_seen (filter (\<lambda>y. y \<noteq> x) xs)"
  by (simp add: first_seen_def remdups_snoc rev_filter)

lemma add_fieldnames_first_seen:
  "distinct fieldnames \<Longrightarrow> add_fieldnames keys fieldnames = first_seen (fieldnames @ keys)"
proof (induction keys arbitrary: fieldnames)
  case Nil
  then show ?case by (simp add: first_seen_distinct)
next
  case (Cons key keys)
  show ?case
  proof (cases "key \<in> set fieldnames")
    case True
    with Cons show ?thesis by (simp add: first_seen_mem)
  next
    case False
    with Cons.prems have "distinct (fieldnames @ [key])" by simp
    from Cons.IH[OF this] False show ?thesis by simp
  qed
qed

lemma collect_fieldnames_first_seen:
  "distinct fieldnames \<Longrightarrow>
     collect_fieldnames items fieldnames = first_seen (fieldnames @ concat (map dict_keys items))"
proof (induction items arbitrary: fieldnames)
  case Nil
  then show ?case by (simp add: first_seen_distinct)
next
  case (Cons item items)
  have d: "distinct (add_fieldnames (dict_keys item) fieldnames)"
    by (simp add: add_fieldnames_first_seen[OF Cons.prems] distinct_first_seen)
  from Cons.IH[OF d] show ?case
    by (simp add: add_fieldnames_first_seen[OF Cons.prems] first_seen_append)
qed

lemma dict_set_new: "k \<notin> fst ` set d \<Longrightarrow> dict_set d k v = d @ [(k, v)]"
  by (induction d) auto

lemma convert_row_step:
  "convert_row py_str ((key, v) # item) row =
     convert_row py_str item (dict_set row key (serialized py_str v))"
  by (cases v) (simp_all add: serialized_def)

lemma convert_row_map:
  "distinct (map fst item) \<Longrightarrow> fst ` set item \<inter> fst ` set row = {} \<Longrightarrow>
     convert_row py_str item row = row @ map (\<lambda>(k, v). (k, serialized py_str v)) item"
proof (induction item arbitrary: row)
  case Nil
  then show ?case by simp
next
  case (Cons kv item)
  obtain key v where kv: "kv = (key, v)" by (cases kv)
  from Cons.prems kv have new: "key \<notin> fst ` set row" by auto
  have d: "distinct (map fst item)" using Cons.prems by simp
  have disj: "fst ` set item \<inter> fst ` set (row @ [(key, serialized py_str v)]) = {}"
    using Cons.prems kv by (auto simp: image_iff)
  show ?case
    unfolding kv convert_row_step
    by (simp add: dict_set_new[OF new] Cons.IH[OF d disj])
qed

lemma map_of_serialized:
  "map_of (map (\<lambda>(k, v). (k, serialized py_str v)) item) key =
     map_option (serialized py_str) (map_of item key)"
  by (induction item) auto

lemma writerow_converted:
  assumes "distinct (dict_keys item)" and "set (dict_keys item) \<subseteq> set fieldnames"
  shows "writerow fieldnames (convert_row py_str item []) =
           Inr (map (\<lambda>key. case map_of item key of
                              None \<Rightarrow> PyStr [] | Some v \<Rightarrow> serialized py_str v) fieldnames)"
proof -
  have c: "convert_row py_str item [] = map (\<lambda>(k, v). (k, serialized py_str v)) item"
    using convert_row_map[of item "[]" py_str] assms(1) by (simp add: dict_keys_def)
  have keys: "dict_keys (map (\<lambda>(k, v). (k, serialized py_str v)) item) = dict_keys item"
    by (simp add: dict_keys_def case_prod_unfold comp_def)
  have cell: "(case map_of (map (\<lambda>(k, v). (k, serialized py_str v)) item) key of
                 None \<Rightarrow> PyStr [] | Some v \<Rightarrow> v) =
              (case map_of item key of None \<Rightarrow> PyStr [] | Some v \<Rightarrow> serialized py_str v)" for key
    by (simp add: map_of_serialized split: option.splits)
  from assms(2) show ?thesis
    unfolding c writerow_def keys by (auto simp: cell)
qed

lemma write_rows_map:
  assumes "\<forall>item \<in> set items. distinct (dict_keys item) \<and> set (dict_keys item) \<subseteq> set fieldnames"
  shows "write_rows py_str fieldnames items written =
           Inr (written @
                map (\<lambda>item. map (\<lambda>key. case map_of item key of
                                          None \<Rightarrow> PyStr [] | Some v \<Rightarrow> serialized py_str v)
                                 fieldnames) items)"
  using assms
proof (induction items arbitrary: written)
  case Nil
  then show ?case by simp
next
  case (Cons item items)
  then have w: "writerow fieldnames (convert_row py_str item []) =
           Inr (map (\<lambda>key. case map_of item key of
                              None \<Rightarrow> PyStr [] | Some v \<Rightarrow> serialized py_str v) fieldnames)"
    by (intro writerow_converted) auto
  from Cons show ?case by (simp add: w)
qed


text \<open>
  Claim C8. For a non-empty list of records (dictionaries, so the keys of each are
  distinct), the export writes the header made of every key of every record at the place
  where it is first seen (a key, then the first-seen keys of what follows without it):
  its set is the union of the records' keys and no key is repeated. It writes one row per
  record, in order, with for each column of the header the empty string when the record
  lacks the key, the string representation of the value when it is a sequence or a
  mapping, and the value itself otherwise. The writer never rejects a row.
\<close>

theorem csv_export_header_and_rows:
  assumes "data \<noteq> []" and "\<forall>item \<in> set data. distinct (dict_keys item)"
  shows "export py_str (DictList data) =
           Inr (Table (first_seen (concat (map dict_keys data)))
                  (map (\<lambda>item. map (\<lambda>key. case map_of item key of
                                             None \<Rightarrow> PyStr []
                                           | Some v \<Rightarrow> serialized py_str v)
                                    (first_seen (concat (map dict_keys data)))) data))
         \<and> set (first_seen (concat (map dict_keys data))) = (\<Union>item \<in> set data. set (dict_keys item))
         \<and> distinct (first_seen (concat (map dict_keys data)))
         \<and> (\<forall>key keys. first_seen (key # keys) = key # first_seen (filter (\<lambda>k. k \<noteq> key) keys))"
proof -
  from assms(1) obtain first others where data: "data = first # others"
    by (cases data) auto
  let ?header = "first_seen (concat (map dict_keys data))"
  from assms(2) data have "distinct (dict_keys first)" by simp
  from collect_fieldnames_first_seen[OF this, of others]
  have header: "collect_fieldnames others (dict_keys first) = ?header"
    by (simp add: data)
  have "\<forall>item \<in> set data. distinct (dict_keys item) \<and> set (dict_keys item) \<subseteq> set ?header"
    using assms(2) by (auto simp: set_first_seen)
  from write_rows_map[OF this, of py_str "[]"]
  have rows: "write_rows py_str ?header (first # others) [] =
      Inr (map (\<lambda>item. map (\<lambda>key. case map_of item key of
                                             None \<Rightarrow> PyStr []
                                           | Some v \<Rightarrow> serialized py_str v) ?header) data)"
    by (simp add: data)
  have 1: "export py_str (DictList data) =
           Inr (Table ?header
                  (map (\<lambda>item. map (\<lambda>key. case map_of item key of
                                             None \<Rightarrow> PyStr []
                                           | Some v \<Rightarrow> serialized py_str v) ?header) data))"
  proof -
    have "export py_str (DictList data) =
            (let fieldnames = collect_fieldnames others (dict_keys first) in
             case write_rows py_str fieldnames (first # others) [] of
               Inl e \<Rightarrow> Inl e
             | Inr rows \<Rightarrow> Inr (Table fieldnames rows))"
      by (simp only: export_def data export_data.case list.case)
    then show ?thesis
      unfolding Let_def header rows by simp
  qed
  have 2: "set ?header = (\<Union>item \<in> set data. set (dict_keys item))"
    by (simp add: set_first_seen)
  show ?thesis
    using 1 2 distinct_first_seen[of "concat (map dict_keys data)"] first_seen_Cons
    by blast
qed

text \<open>The hypotheses hold for two records of which each lacks a key of the other.\<close>

theorem csv_export_header_and_rows_witness:
  "csv_records \<noteq> [] \<and> list_all (\<lambda>item. distinct (dict_keys item)) csv_records
   \<and> export bracketed (DictList csv_records) =
       Inr (Table [''a'', ''b'', ''c'']
              [[PyStr ''1'', PyStr ''[...]'', PyStr []],
               [PyStr ''2'', PyStr [], PyNone]])"
proof -
  have h1: "csv_records \<noteq> []" by (simp add: csv_records_def)
  have h2: "\<forall>item \<in> set csv_records. distinct (dict_keys item)"
    by (simp add: csv_records_def dict_keys_def)
  have header: "first_seen (concat (map dict_keys csv_records)) = [''a'', ''b'', ''c'']"
    by (simp add: csv_records_def dict_keys_def first_seen_def)
  from csv_export_header_and_rows[OF h1 h2, of bracketed]
  have "export bracketed (DictList csv_records) =
           Inr (Table (first_seen (concat (map dict_keys csv_records)))
                  (map (\<lambda>item. map (\<lambda>key. case map_of item key of
                                             None \<Rightarrow> PyStr []
                                           | Some v \<Rightarrow> serialized bracketed v)
                                    (first_seen (concat (map dict_keys csv_records)))) csv_records))"
    by (rule conjunct1)
  then have "export bracketed (DictList csv_records) =
       Inr (Table [''a'', ''b'', ''c'']
              [[PyStr ''1'', PyStr ''[...]'', PyStr []],
               [PyStr ''2'', PyStr [], PyNone]])"
    unfolding header by (simp add: csv_records_def serialized_def bracketed_def)
  with h1 h2 show ?thesis by (simp add: list_all_iff)
qed

subsection \<open>The configuration object\<close>

text \<open>
  No operation but \<^verbatim>\<open>Scraper.__init__\<close> assigns to the configuration object. First the
  helpers of the state, the proxy manager and the user agent manager.
\<close>

lemma logger_warning_config: "config_object (logger_warning msg w) = config_object w"
  by (simp add: logger_warning_def)

lemma logger_error_config: "config_object (logger_error msg e w) = config_object w"
  by (simp add: logger_error_def)

lemma time_sleep_config: "config_object (time_sleep seconds w) = config_object w"
  by (simp add: time_sleep_def)

lemma random_choice_config: "config_object (snd (random_choice ev seq w)) = config_object w"
  by (simp add: random_choice_def)

lemma load_proxies_config: "config_object (snd (load_proxies ev file_path w)) = config_object w"
  by (simp add: load_proxies_def logger_warning_config logger_error_config Let_def
      split: option.splits sum.splits)

lemma get_proxy_config:
  "config_object (snd (get_proxy ev file_path policy w)) = config_object w"
proof -
  obtain proxies w1 where l: "load_proxies ev file_path w = (proxies, w1)"
    by (cases "load_proxies ev file_path w")
  from load_proxies_config[of ev file_path w] l have c: "config_object w1 = config_object w"
    by simp
  then show ?thesis
    by (simp add: get_proxy_def l random_choice_def logger_warning_def)
qed

lemma remove_proxy_config:
  "config_object (remove_proxy ev file_path proxy w) = config_object w"
proof -
  obtain proxies w1 where l: "load_proxies ev file_path w = (proxies, w1)"
    by (cases "load_proxies ev file_path w")
  from load_proxies_config[of ev file_path w] l have c: "config_object w1 = config_object w"
    by simp
  then show ?thesis
    by (simp add: remove_proxy_def l logger_error_config Let_def split: option.splits)
qed

lemma load_user_agents_config:
  "config_object (snd (load_user_agents ev file_path w)) = config_object w"
  by (simp add: load_user_agents_def logger_warning_config logger_error_config Let_def
      split: option.splits sum.splits)

lemma get_random_user_agent_config:
  "config_object (snd (get_random_user_agent ev file_path w)) = config_object w"
proof -
  obtain user_agents w1 where l: "load_user_agents ev file_path w = (user_agents, w1)"
    by (cases "load_user_agents ev file_path w")
  from load_user_agents_config[of ev file_path w] l have "config_object w1 = config_object w"
    by simp
  with random_choice_config[of ev user_agents w1] show ?thesis
    by (simp add: get_random_user_agent_def l)
qed

text \<open>The engine.\<close>

lemma RequestsEngine_init_config:
  "config_object (RequestsEngine_init ev cfg w) = config_object w"
  by (simp add: RequestsEngine_init_def)

lemma rotate_user_agent_config:
  "config_object (snd (rotate_user_agent cfg ev w)) = config_object w"
  using get_random_user_agent_config[of ev "user_agent_list_path cfg" w]
  by (auto simp: rotate_user_agent_def split: prod.splits sum.splits)

lemma choose_proxies_config:
  "config_object (snd (choose_proxies cfg ev w)) = config_object w"
  using get_proxy_config[of ev "proxy_list_path cfg" "proxy_rotation_policy cfg" w]
  by (auto simp: choose_proxies_def split: prod.splits sum.splits option.splits)

lemma session_get_config:
  "config_object (snd (session_get cfg ev url proxies w)) = config_object w"
  by (simp add: session_get_def)

lemma fetch_page_attempt_config:
  "config_object (snd (fetch_page_attempt cfg ev url w)) = config_object w"
proof -
  obtain r1 w1 where a: "rotate_user_agent cfg ev w = (r1, w1)"
    by (cases "rotate_user_agent cfg ev w")
  obtain r2 w2 where b: "choose_proxies cfg ev w1 = (r2, w2)"
    by (cases "choose_proxies cfg ev w1")
  from rotate_user_agent_config[of cfg ev w] a have 1: "config_object w1 = config_object w"
    by simp
  from choose_proxies_config[of cfg ev w1] b have 2: "config_object w2 = config_object w1"
    by simp
  have 3: "config_object (snd (session_get cfg ev url p w2)) = config_object w2" for p
    by (rule session_get_config)
  show ?thesis
  proof (cases r1)
    case (Inl e)
    with a 1 show ?thesis by (simp add: fetch_page_attempt_def)
  next
    case (Inr u)
    show ?thesis
    proof (cases r2)
      case (Inl e)
      with a b \<open>r1 = Inr u\<close> 1 2 show ?thesis by (simp add: fetch_page_attempt_def)
    next
      case (Inr p)
      with a b \<open>r1 = Inr u\<close> 1 2 3[of p] show ?thesis
        by (cases "session_get cfg ev url p w2")
           (simp add: fetch_page_attempt_def split: sum.splits)
    qed
  qed
qed

lemma retry_call_config:
  "(\<And>w. config_object (snd (fn w)) = config_object w) \<Longrightarrow>
     config_object (snd (snd (retry_call fn stop wait attempt w))) = config_object w"
proof (induction fn stop wait attempt w rule: retry_call.induct)
  case (1 fn stop wait attempt w)
  show ?case
  proof (cases "fn w")
    case (Pair r w1)
    from "1.prems"[of w] Pair have c: "config_object w1 = config_object w" by simp
    show ?thesis
    proof (cases r)
      case (Inl e)
      show ?thesis
      proof (cases "stop \<le> attempt")
        case True
        with Pair Inl c show ?thesis
          by (subst retry_call.simps) simp
      next
        case False
        from "1.IH"[OF Pair[symmetric] Inl False "1.prems"]
        have "config_object (snd (snd (retry_call fn stop wait (attempt + 1)
                (time_sleep wait w1)))) = config_object w"
          by (simp add: time_sleep_config c)
        with Pair Inl False show ?thesis
          by (subst retry_call.simps) simp
      qed
    next
      case (Inr v)
      with Pair c show ?thesis
        by (subst retry_call.simps) simp
    qed
  qed
qed

lemma fetch_page_config: "config_object (snd (fetch_page cfg ev url w)) = config_object w"
  using retry_call_config[of "fetch_page_attempt cfg ev url" 3 2 1 w, OF fetch_page_attempt_config]
  by (auto simp: fetch_page_def fetch_page_attempts_def split: prod.splits)

lemma RequestsEngine_scrape_config:
  "config_object (snd (RequestsEngine_scrape cfg ev url sch w)) = config_object w"
proof -
  obtain r w1 where f: "fetch_page cfg ev url w = (r, w1)"
    by (cases "fetch_page cfg ev url w")
  from fetch_page_config[of cfg ev url w] f have "config_object w1 = config_object w"
    by simp
  then show ?thesis
    by (simp add: RequestsEngine_scrape_def f logger_error_config
        split: sum.splits prod.splits)
qed

lemma RequestsEngine_config:
  "config_object (snd (fst (RequestsEngine ev cfg w0) url sch w)) = config_object w"
  using RequestsEngine_scrape_config[of "config_object w" ev url sch w]
  by (auto simp: RequestsEngine_def split: prod.splits)

text \<open>The robots.txt check.\<close>

lemma del_parser_config: "config_object (snd (del_parser b w)) = config_object w"
  by (simp add: del_parser_def split: sum.splits)

lemma remove_old_config: "config_object (snd (remove_old bs t w)) = config_object w"
proof (induction bs arbitrary: w)
  case Nil
  then show ?case by simp
next
  case (Cons b bs)
  obtain r1 w1 where d: "del_parser b w = (r1, w1)" by (cases "del_parser b w")
  from del_parser_config[of b w] d have "config_object w1 = config_object w" by simp
  with Cons.IH[of w1] Cons.IH[of w] d show ?case
    by (simp add: Let_def split: sum.splits)
qed

lemma remove_oldest_config: "config_object (snd (remove_oldest bs w)) = config_object w"
proof (induction bs arbitrary: w)
  case Nil
  then show ?case by simp
next
  case (Cons b bs)
  obtain r1 w1 where d: "del_parser b w = (r1, w1)" by (cases "del_parser b w")
  from del_parser_config[of b w] d have "config_object w1 = config_object w" by simp
  with Cons.IH[of w1] d show ?case
    by (simp split: sum.splits)
qed

lemma cleanup_old_parsers_config:
  "config_object (snd (cleanup_old_parsers ev w)) = config_object w"
proof (cases "length (robots_parsers w) \<le> robots_parsers_max_cache_size")
  case True
  then show ?thesis by (simp add: cleanup_old_parsers_def)
next
  case False
  let ?w1 = "w\<lparr>time_calls := time_calls w + 1\<rparr>"
  obtain r2 w2 where old:
    "remove_old (dict_keys (robots_parsers ?w1)) (time_time ev (time_calls w)) ?w1 = (r2, w2)"
    by (cases "remove_old (dict_keys (robots_parsers ?w1)) (time_time ev (time_calls w)) ?w1")
  from remove_old_config[of "dict_keys (robots_parsers ?w1)" "time_time ev (time_calls w)" ?w1] old
  have c: "config_object w2 = config_object w" by simp
  have "config_object (snd (remove_oldest bs w2)) = config_object w" for bs
    by (simp add: remove_oldest_config c)
  with False old c show ?thesis
    by (simp add: cleanup_old_parsers_def Let_def split: sum.splits)
qed

lemma touch_parser_config: "config_object (touch_parser ev base_url w) = config_object w"
  by (simp add: touch_parser_def)

lemma get_robots_parser_config:
  "config_object (snd (get_robots_parser ev base_url w)) = config_object w"
proof -
  obtain r w1 where c: "cleanup_old_parsers ev w = (r, w1)"
    by (cases "cleanup_old_parsers ev w")
  from cleanup_old_parsers_config[of ev w] c have "config_object w1 = config_object w"
    by simp
  then show ?thesis
    by (simp add: get_robots_parser_def c touch_parser_config logger_error_config
        split: sum.splits option.splits)
qed

lemma can_fetch_config: "config_object (snd (can_fetch ev ua url w)) = config_object w"
proof (cases "urlparse ev url")
  case (Inl e)
  then show ?thesis by (simp add: can_fetch_def)
next
  case (Inr parsed)
  obtain r w1 where g: "get_robots_parser ev (scheme parsed @ ''://'' @ netloc parsed) w = (r, w1)"
    by (cases "get_robots_parser ev (scheme parsed @ ''://'' @ netloc parsed) w")
  from get_robots_parser_config[of ev "scheme parsed @ ''://'' @ netloc parsed" w] g
  have "config_object w1 = config_object w" by simp
  with Inr g show ?thesis
    by (simp add: can_fetch_def Let_def logger_error_config split: sum.splits option.splits)
qed

text \<open>The scraper, with an engine that leaves the configuration object as it is.\<close>

lemma Scraper_scrape_config:
  assumes "\<And>url sch w. config_object (snd (scraper_engine self url sch w)) = config_object w"
  shows "config_object (snd (Scraper_scrape self ev url sch w)) = config_object w"
proof -
  obtain r w1 where c: "(case robots_checker self of None \<Rightarrow> (Inr True, w)
                         | Some ua \<Rightarrow> can_fetch ev ua url w) = (r, w1)"
    by (cases "case robots_checker self of None \<Rightarrow> (Inr True, w)
               | Some ua \<Rightarrow> can_fetch ev ua url w")
  have c1: "config_object w1 = config_object w"
  proof (cases "robots_checker self")
    case None
    with c show ?thesis by simp
  next
    case (Some ua)
    with c can_fetch_config[of ev ua url w] show ?thesis by simp
  qed
  let ?w2 = "if request_delay (config_object w1) > 0
             then time_sleep (request_delay (config_object w1)) w1 else w1"
  have c2: "config_object ?w2 = config_object w"
    by (simp add: time_sleep_config c1)
  obtain r3 w3 where e: "scraper_engine self url sch ?w2 = (r3, w3)"
    by (cases "scraper_engine self url sch ?w2")
  from assms[of url sch ?w2] e c2 have c3: "config_object w3 = config_object w"
    by simp
  show ?thesis
    unfolding Scraper_scrape_def c Let_def
    using c1 c3 e
    by (cases r; cases r3) (simp_all add: logger_warning_config logger_error_config)
qed

lemma scrape_multiple_loop_config:
  assumes "\<And>url sch w. config_object (snd (scraper_engine self url sch w)) = config_object w"
  shows "config_object (snd (scrape_multiple_loop self ev urls sch results w)) = config_object w"
proof (induction urls arbitrary: results w)
  case Nil
  then show ?case by simp
next
  case (Cons url urls)
  obtain r w1 where s: "Scraper_scrape self ev url sch w = (r, w1)"
    by (cases "Scraper_scrape self ev url sch w")
  from Scraper_scrape_config[of self ev url sch w, OF assms] s
  have c: "config_object w1 = config_object w" by simp
  have "config_object (snd (scrape_multiple_loop self ev urls sch results' w1)) = config_object w"
    for results'
    by (simp add: Cons.IH c)
  with s c show ?case by (simp split: sum.splits)
qed

lemma Scraper_init_config:
  "config_object (snd (Scraper_init [(''requests'', RequestsEngine ev)] fresh engine_name
                         (Some cfg) w)) =
     (if engine_name \<noteq> [] \<and> engine_name \<noteq> engine cfg then cfg\<lparr>engine := engine_name\<rparr> else cfg)"
  by (simp add: Scraper_init_def Let_def get_engine_def RequestsEngine_def
      RequestsEngine_init_config split: option.splits prod.splits)

text \<open>
  Claim C9, as amended. \<^verbatim>\<open>Scraper.__init__\<close> assigns its engine argument, when it is
  not empty, to the engine field of the configuration object it is given, which is the
  object the scraper and its engine go on to read; every other field of that object
  keeps its value. No other operation changes the configuration object: not the scrape
  of one URL or of several by a scraper with the requests engine, not the engine's own
  scrape and page fetch, not the robots check, and not the selection or removal of a
  proxy or the selection of a user agent.
\<close>

theorem config_changed_by_Scraper_init_only:
  "engine (config_object (snd (Scraper_init [(''requests'', RequestsEngine ev)] fresh engine_name
                                (Some cfg) w))) =
     (if engine_name = [] then engine cfg else engine_name)
   \<and> (config_object (snd (Scraper_init [(''requests'', RequestsEngine ev)] fresh engine_name
                             (Some cfg) w)))\<lparr>engine := engine cfg\<rparr> = cfg
   \<and> config_object
       (snd (Scraper_scrape \<lparr>scraper_engine = fst (RequestsEngine ev cfg w0), robots_checker = checker\<rparr>
               ev url sch w)) = config_object w
   \<and> config_object
       (snd (scrape_multiple \<lparr>scraper_engine = fst (RequestsEngine ev cfg w0), robots_checker = checker\<rparr>
               ev urls sch w)) = config_object w
   \<and> config_object (snd (RequestsEngine_scrape cfg ev url sch w)) = config_object w
   \<and> config_object (snd (fetch_page cfg ev url w)) = config_object w
   \<and> config_object (snd (can_fetch ev ua url w)) = config_object w
   \<and> config_object (snd (get_proxy ev file_path policy w)) = config_object w
   \<and> config_object (remove_proxy ev file_path proxy w) = config_object w
   \<and> config_object (snd (get_random_user_agent ev file_path w)) = config_object w"
proof -
  let ?self = "\<lparr>scraper_engine = fst (RequestsEngine ev cfg w0), robots_checker = checker\<rparr>"
  have eng: "config_object (snd (scraper_engine ?self url sch w)) = config_object w"
    for url sch w
    by (simp add: RequestsEngine_config)
  have 1: "engine (config_object (snd (Scraper_init [(''requests'', RequestsEngine ev)] fresh
                     engine_name (Some cfg) w))) =
           (if engine_name = [] then engine cfg else engine_name)"
    by (simp add: Scraper_init_config)
  have 2: "(config_object (snd (Scraper_init [(''requests'', RequestsEngine ev)] fresh engine_name
                             (Some cfg) w)))\<lparr>engine := engine cfg\<rparr> = cfg"
    by (simp add: Scraper_init_config)
  have 3: "config_object (snd (Scraper_scrape ?self ev url sch w)) = config_object w"
    by (rule Scraper_scrape_config) (rule eng)
  have 4: "config_object (snd (scrape_multiple ?self ev urls sch w)) = config_object w"
    unfolding scrape_multiple_def by (rule scrape_multiple_loop_config) (rule eng)
  show ?thesis
    by (intro conjI) (rule 1, rule 2, rule 3, rule 4, rule RequestsEngine_scrape_config,
        rule fetch_page_config, rule can_fetch_config, rule get_proxy_config,
        rule remove_proxy_config, rule get_random_user_agent_config)
qed

text \<open>
  Claim C9 as stated fails: a configuration constructed with the engine \<open>selenium\<close>
  and passed to \<^verbatim>\<open>Scraper(config=...)\<close>, whose engine argument defaults to
  \<open>requests\<close>, has the engine \<open>requests\<close> afterwards, and the scraper is built.
\<close>

theorem config_engine_overwritten:
  "engine selenium_config = ''selenium''
   \<and> engine (config_object (snd (Scraper_init site_registry default_config ''requests''
                                   (Some selenium_config) initial_world))) = ''requests''
   \<and> isl (fst (Scraper_init site_registry default_config ''requests''
                  (Some selenium_config) initial_world)) = False"
  by (simp add: Scraper_init_def Let_def get_engine_def site_registry_def selenium_config_def
      RequestsEngine_def RequestsEngine_init_def)

end
